theory Spec2Isabelle
  imports Complex_Main "HOL-Library.Sublist" "HOL-Library.Log_Nat"
begin

section \<open>Numbers and geometric records\<close>

text \<open>
  The TypeScript sources compute with IEEE doubles and store geometry in
  \<open>Float32Array\<close>s.  The embedding idealises every such number as a \<^typ>\<open>real\<close>:
  rounding, infinities and NaN are outside the model.  Counters, array indices and
  the contents of \<open>Uint32Array\<close>s are natural numbers; where the source stores into
  a \<open>Uint32Array\<close> the reduction modulo \<open>2 ^ 32\<close> is written out.

  One texel of a packed array (four consecutive floats) is a \<open>quad\<close>; a
  \<open>Float32Array\<close> that the source only ever fills and reads four floats at a time
  is a list of quads.
\<close>

type_synonym quad = "real \<times> real \<times> real \<times> real"

record Bounds =
  minX :: real
  minY :: real
  maxX :: real
  maxY :: real

section \<open>Curve flattening (pdfVectorExtractor.ts)\<close>

definition CURVE_FLATNESS :: real where
  "CURVE_FLATNESS = 35 / 100"

definition MAX_CURVE_SPLIT_DEPTH :: nat where
  "MAX_CURVE_SPLIT_DEPTH = 9"

definition crossDistanceSq :: "real \<Rightarrow> real \<Rightarrow> real \<Rightarrow> real \<Rightarrow> real \<Rightarrow> real" where
  "crossDistanceSq px py ux uy lenSq =
     (let cross = px * uy - py * ux in (cross * cross) / lenSq)"

definition cubicFlatnessSq ::
  "real \<Rightarrow> real \<Rightarrow> real \<Rightarrow> real \<Rightarrow> real \<Rightarrow> real \<Rightarrow> real \<Rightarrow> real \<Rightarrow> real" where
  "cubicFlatnessSq x0 y0 x1 y1 x2 y2 x3 y3 =
     (let ux = x3 - x0; uy = y3 - y0; lenSq = ux * ux + uy * uy in
      if lenSq < 1 / 10 ^ 12 then 0
      else max (crossDistanceSq (x1 - x0) (y1 - y0) ux uy lenSq)
               (crossDistanceSq (x2 - x0) (y2 - y0) ux uy lenSq))"

text \<open>
  \<open>flattenCubic\<close> keeps an explicit stack of numbers and pops nine at a time: the
  eight control coordinates of a sub-curve and its depth.  One such group is a
  \<open>subdiv\<close>; the head of the list is the top of the stack.
\<close>

record subdiv =
  q0x :: real
  q0y :: real
  q1x :: real
  q1y :: real
  q2x :: real
  q2y :: real
  q3x :: real
  q3y :: real
  depth :: nat

definition isFlatEnough :: "real \<Rightarrow> nat \<Rightarrow> subdiv \<Rightarrow> bool" where
  "isFlatEnough flatnessSq maxDepth r \<longleftrightarrow>
     depth r \<ge> maxDepth \<or>
     cubicFlatnessSq (q0x r) (q0y r) (q1x r) (q1y r) (q2x r) (q2y r) (q3x r) (q3y r)
       \<le> flatnessSq"

definition chord :: "subdiv \<Rightarrow> quad" where
  "chord r = (q0x r, q0y r, q3x r, q3y r)"

text \<open>The record pushed last (popped first): the half from \<open>t = 0\<close> to \<open>t = 1/2\<close>.\<close>

definition firstHalf :: "subdiv \<Rightarrow> subdiv" where
  "firstHalf r =
     (let x01 = (q0x r + q1x r) * (1 / 2); y01 = (q0y r + q1y r) * (1 / 2);
          x12 = (q1x r + q2x r) * (1 / 2); y12 = (q1y r + q2y r) * (1 / 2);
          x23 = (q2x r + q3x r) * (1 / 2); y23 = (q2y r + q3y r) * (1 / 2);
          x012 = (x01 + x12) * (1 / 2); y012 = (y01 + y12) * (1 / 2);
          x123 = (x12 + x23) * (1 / 2); y123 = (y12 + y23) * (1 / 2);
          x0123 = (x012 + x123) * (1 / 2); y0123 = (y012 + y123) * (1 / 2)
      in \<lparr>q0x = q0x r, q0y = q0y r, q1x = x01, q1y = y01, q2x = x012, q2y = y012,
          q3x = x0123, q3y = y0123, depth = depth r + 1\<rparr>)"

text \<open>The record pushed first (popped second): the half from \<open>t = 1/2\<close> to \<open>t = 1\<close>.\<close>

definition secondHalf :: "subdiv \<Rightarrow> subdiv" where
  "secondHalf r =
     (let x01 = (q0x r + q1x r) * (1 / 2); y01 = (q0y r + q1y r) * (1 / 2);
          x12 = (q1x r + q2x r) * (1 / 2); y12 = (q1y r + q2y r) * (1 / 2);
          x23 = (q2x r + q3x r) * (1 / 2); y23 = (q2y r + q3y r) * (1 / 2);
          x012 = (x01 + x12) * (1 / 2); y012 = (y01 + y12) * (1 / 2);
          x123 = (x12 + x23) * (1 / 2); y123 = (y12 + y23) * (1 / 2);
          x0123 = (x012 + x123) * (1 / 2); y0123 = (y012 + y123) * (1 / 2)
      in \<lparr>q0x = x0123, q0y = y0123, q1x = x123, q1y = y123, q2x = x23, q2y = y23,
          q3x = q3x r, q3y = q3y r, depth = depth r + 1\<rparr>)"

text \<open>
  The termination measure of the \<open>while (stack.length > 0)\<close> loop: a record at
  depth \<open>d\<close> can still cause \<open>2 ^ (maxDepth - d + 1) - 1\<close> iterations.
\<close>

definition subdivWeight :: "nat \<Rightarrow> subdiv \<Rightarrow> nat" where
  "subdivWeight maxDepth r = 2 ^ Suc (maxDepth - depth r) - 1"

definition stackWeight :: "nat \<Rightarrow> subdiv list \<Rightarrow> nat" where
  "stackWeight maxDepth stack = sum_list (map (subdivWeight maxDepth) stack)"

lemma subdivWeight_pos: "0 < subdivWeight maxDepth r"
proof -
  have "(1::nat) \<le> 2 ^ (maxDepth - depth r)" by simp
  then have "(2::nat) \<le> 2 ^ Suc (maxDepth - depth r)" by simp
  then show ?thesis unfolding subdivWeight_def by linarith
qed

lemma subdivWeight_split:
  assumes "depth r < maxDepth"
  shows "subdivWeight maxDepth (firstHalf r) + subdivWeight maxDepth (secondHalf r)
           < subdivWeight maxDepth r"
proof -
  have d: "depth (firstHalf r) = Suc (depth r)" "depth (secondHalf r) = Suc (depth r)"
    by (simp_all add: firstHalf_def secondHalf_def Let_def)
  from assms have e: "Suc (maxDepth - Suc (depth r)) = maxDepth - depth r"
    by simp
  define k :: nat where "k = 2 ^ (maxDepth - depth r)"
  have k: "1 \<le> k" by (simp add: k_def)
  have "subdivWeight maxDepth (firstHalf r) = k - 1"
    "subdivWeight maxDepth (secondHalf r) = k - 1"
    "subdivWeight maxDepth r = 2 * k - 1"
    by (simp_all add: subdivWeight_def d e k_def)
  with k show ?thesis by linarith
qed

text \<open>
  The loop of \<open>flattenCubic\<close>.  The calls of the \<open>emitLine\<close> callback are returned
  as the list of emitted chords, in call order.
\<close>

function flattenLoop :: "real \<Rightarrow> nat \<Rightarrow> subdiv list \<Rightarrow> quad list" where
  "flattenLoop flatnessSq maxDepth [] = []"
| "flattenLoop flatnessSq maxDepth (r # stack) =
     (if isFlatEnough flatnessSq maxDepth r
      then chord r # flattenLoop flatnessSq maxDepth stack
      else flattenLoop flatnessSq maxDepth (firstHalf r # secondHalf r # stack))"
  by pat_completeness auto
termination
proof (relation "measure (\<lambda>(flatnessSq, maxDepth, stack). stackWeight maxDepth stack)")
  show "wf (measure (\<lambda>(flatnessSq, maxDepth, stack). stackWeight maxDepth stack))"
    by simp
next
  fix flatnessSq :: real and maxDepth :: nat and r :: subdiv and stack :: "subdiv list"
  show "((flatnessSq, maxDepth, stack), (flatnessSq, maxDepth, r # stack))
          \<in> measure (\<lambda>(flatnessSq, maxDepth, stack). stackWeight maxDepth stack)"
    using subdivWeight_pos [of maxDepth r] by (simp add: stackWeight_def)
next
  fix flatnessSq :: real and maxDepth :: nat and r :: subdiv and stack :: "subdiv list"
  assume "\<not> isFlatEnough flatnessSq maxDepth r"
  then have "depth r < maxDepth" by (simp add: isFlatEnough_def)
  then show "((flatnessSq, maxDepth, firstHalf r # secondHalf r # stack),
              (flatnessSq, maxDepth, r # stack))
          \<in> measure (\<lambda>(flatnessSq, maxDepth, stack). stackWeight maxDepth stack)"
    using subdivWeight_split [of r maxDepth] by (simp add: stackWeight_def)
qed

definition flattenCubic ::
  "real \<Rightarrow> real \<Rightarrow> real \<Rightarrow> real \<Rightarrow> real \<Rightarrow> real \<Rightarrow> real \<Rightarrow> real \<Rightarrow> real \<Rightarrow> nat \<Rightarrow> quad list" where
  "flattenCubic x0 y0 x1 y1 x2 y2 x3 y3 flatness maxDepth =
     flattenLoop (flatness * flatness) maxDepth
       [\<lparr>q0x = x0, q0y = y0, q1x = x1, q1y = y1, q2x = x2, q2y = y2,
         q3x = x3, q3y = y3, depth = 0\<rparr>]"



section \<open>Derived stroke textures of the archive loader (parsedDataZip.ts)\<close>

text \<open>
  The part of \<open>loadSceneFromParsedDataZip\<close> that builds the stroke arrays.  A texture
  read from the archive is a list of quads, or \<open>None\<close> when the archive has no such
  entry.  The two \<open>throw\<close>s on this path are the values of \<open>loadError\<close>.
\<close>

datatype loadError = InsufficientData | MissingStrokeGeometry

definition trimTextureForItemCount :: "quad list \<Rightarrow> nat \<Rightarrow> loadError + quad list" where
  "trimTextureForItemCount source itemCount =
     (if itemCount = 0 then Inr []
      else if length source < itemCount then Inl InsufficientData
      else if length source = itemCount then Inr source
      else Inr (take itemCount source))"






section \<open>Path emission and segment merging (pdfVectorExtractor.ts)\<close>

type_synonym Mat2D = "real \<times> real \<times> real \<times> real \<times> real \<times> real"

definition IDENTITY_MATRIX :: Mat2D where
  "IDENTITY_MATRIX = (1, 0, 0, 1, 0, 0)"

definition SEGMENT_JOIN_EPSILON :: real where
  "SEGMENT_JOIN_EPSILON = 1 / 10 ^ 3"

definition COLLINEAR_DOT_THRESHOLD :: real where
  "COLLINEAR_DOT_THRESHOLD = 999995 / 1000000"

definition COLLINEAR_PERP_EPSILON :: real where
  "COLLINEAR_PERP_EPSILON = 5 / 100"

definition ALPHA_INVISIBLE_EPSILON :: real where
  "ALPHA_INVISIBLE_EPSILON = 1 / 10 ^ 3"

definition OPAQUE_ALPHA_EPSILON :: real where
  "OPAQUE_ALPHA_EPSILON = 999 / 1000"

definition DUPLICATE_POSITION_SCALE :: real where
  "DUPLICATE_POSITION_SCALE = 1000"

definition DUPLICATE_STYLE_SCALE :: real where
  "DUPLICATE_STYLE_SCALE = 10000"

definition COVER_DIRECTION_SCALE :: real where
  "COVER_DIRECTION_SCALE = 2000"

definition COVER_OFFSET_SCALE :: real where
  "COVER_OFFSET_SCALE = 200"

definition COVER_INTERVAL_EPSILON :: real where
  "COVER_INTERVAL_EPSILON = 5 / 100"

definition COVER_HALF_WIDTH_EPSILON :: real where
  "COVER_HALF_WIDTH_EPSILON = 1 / 10 ^ 4"

text \<open>\<open>Math.hypot\<close> of two arguments.\<close>

definition hypot :: "real \<Rightarrow> real \<Rightarrow> real" where
  "hypot x y = sqrt (x * x + y * y)"

definition multiplyMatrices :: "Mat2D \<Rightarrow> Mat2D \<Rightarrow> Mat2D" where
  "multiplyMatrices a b =
     (case a of (a0, a1, a2, a3, a4, a5) \<Rightarrow>
      (case b of (b0, b1, b2, b3, b4, b5) \<Rightarrow>
        (a0 * b0 + a2 * b1, a1 * b0 + a3 * b1,
         a0 * b2 + a2 * b3, a1 * b2 + a3 * b3,
         a0 * b4 + a2 * b5 + a4, a1 * b4 + a3 * b5 + a5)))"

text \<open>The test \<open>Number.isFinite(scale)\<close> always succeeds on a real.\<close>

definition matrixScale :: "Mat2D \<Rightarrow> real" where
  "matrixScale m =
     (case m of (m0, m1, m2, m3, m4, m5) \<Rightarrow>
       (let sx = hypot m0 m1; sy = hypot m2 m3; scale = (sx + sy) * (1 / 2)
        in if scale > 0 then scale else 1))"

definition applyMatrix :: "Mat2D \<Rightarrow> real \<Rightarrow> real \<Rightarrow> real \<times> real" where
  "applyMatrix m x y =
     (case m of (m0, m1, m2, m3, m4, m5) \<Rightarrow>
        (m0 * x + m2 * y + m4, m1 * x + m3 * y + m5))"

definition clamp01 :: "real \<Rightarrow> real" where
  "clamp01 v = (if v \<le> 0 then 0 else if v \<ge> 1 then 1 else v)"

text \<open>
  The two \<open>Float4Builder\<close>s and the running bounds that
  \<open>extractFirstPageVectors\<close> shares between all paths.  The running bounds start
  at \<open>(+\<infinity>, +\<infinity>, -\<infinity>, -\<infinity>)\<close>; that start value is \<open>None\<close>, and
  \<open>Math.min(+\<infinity>, a, b)\<close> is \<open>min a b\<close>.
\<close>

record builders =
  endpointBuilder :: "quad list"
  styleBuilder :: "quad list"
  boundsAcc :: "Bounds option"

definition extendBounds :: "Bounds option \<Rightarrow> quad \<Rightarrow> Bounds option" where
  "extendBounds acc q =
     (case q of (x0, y0, x1, y1) \<Rightarrow>
       (case acc of
          None \<Rightarrow> Some \<lparr>minX = min x0 x1, minY = min y0 y1,
                         maxX = max x0 x1, maxY = max y0 y1\<rparr>
        | Some b \<Rightarrow> Some \<lparr>minX = min (min (minX b) x0) x1, minY = min (min (minY b) y0) y1,
                           maxX = max (max (maxX b) x0) x1, maxY = max (max (maxY b) y0) y1\<rparr>))"

definition pushSegment :: "quad \<Rightarrow> real \<Rightarrow> real \<Rightarrow> real \<Rightarrow> builders \<Rightarrow> builders" where
  "pushSegment q halfWidth luma alpha b =
     b\<lparr>endpointBuilder := endpointBuilder b @ [q],
       styleBuilder := styleBuilder b @ [(halfWidth, luma, alpha, 0)],
       boundsAcc := extendBounds (boundsAcc b) q\<rparr>"

text \<open>
  The local variables of \<open>emitSegmentsFromPath\<close>.  \<open>pending\<close> is \<open>None\<close> while
  \<open>hasPending\<close> is false (the four pending coordinates are then never read).
\<close>

record pathLocals =
  sourceCount :: nat
  cursorX :: real
  cursorY :: real
  startX :: real
  startY :: real
  hasStart :: bool
  pending :: "quad option"
  out :: builders

definition flushPending :: "real \<Rightarrow> real \<Rightarrow> real \<Rightarrow> pathLocals \<Rightarrow> pathLocals" where
  "flushPending halfWidth luma alpha st =
     (case pending st of
        None \<Rightarrow> st
      | Some q \<Rightarrow> st\<lparr>out := pushSegment q halfWidth luma alpha (out st), pending := None\<rparr>)"

text \<open>The result is the extended pending segment when the merge succeeds.\<close>

definition tryMergePending :: "quad \<Rightarrow> pathLocals \<Rightarrow> quad option" where
  "tryMergePending q st =
     (case pending st of
        None \<Rightarrow> None
      | Some (pendingX0, pendingY0, pendingX1, pendingY1) \<Rightarrow>
        (case q of (x0, y0, x1, y1) \<Rightarrow>
          (let joinDx = x0 - pendingX1; joinDy = y0 - pendingY1 in
           if joinDx * joinDx + joinDy * joinDy > SEGMENT_JOIN_EPSILON * SEGMENT_JOIN_EPSILON
           then None
           else
            (let baseDx = pendingX1 - pendingX0; baseDy = pendingY1 - pendingY0;
                 nextDx = x1 - x0; nextDy = y1 - y0;
                 baseLenSq = baseDx * baseDx + baseDy * baseDy;
                 nextLenSq = nextDx * nextDx + nextDy * nextDy in
             if baseLenSq < 1 / 10 ^ 10 \<or> nextLenSq < 1 / 10 ^ 10 then None
             else
              (let invLenProduct = 1 / sqrt (baseLenSq * nextLenSq);
                   dot = (baseDx * nextDx + baseDy * nextDy) * invLenProduct in
               if dot < COLLINEAR_DOT_THRESHOLD then None
               else
                (let chainDx = x1 - pendingX0; chainDy = y1 - pendingY0;
                     perpDistSq = crossDistanceSq chainDx chainDy baseDx baseDy baseLenSq in
                 if perpDistSq > COLLINEAR_PERP_EPSILON * COLLINEAR_PERP_EPSILON then None
                 else Some (pendingX0, pendingY0, x1, y1)))))))"

definition emitLine ::
  "real \<Rightarrow> real \<Rightarrow> real \<Rightarrow> bool \<Rightarrow> quad \<Rightarrow> bool \<Rightarrow> pathLocals \<Rightarrow> pathLocals" where
  "emitLine halfWidth luma alpha allowSegmentMerge q allowMerge st =
     (case q of (x0, y0, x1, y1) \<Rightarrow>
       (let dx = x1 - x0; dy = y1 - y0 in
        if dx * dx + dy * dy < 1 / 10 ^ 10 then st
        else
         (let st1 = st\<lparr>sourceCount := sourceCount st + 1\<rparr> in
          (case (if allowSegmentMerge \<and> allowMerge then tryMergePending q st1 else None) of
             Some merged \<Rightarrow> st1\<lparr>pending := Some merged\<rparr>
           | None \<Rightarrow>
               if allowSegmentMerge
               then (flushPending halfWidth luma alpha st1)\<lparr>pending := Some q\<rparr>
               else st1\<lparr>out := pushSegment q halfWidth luma alpha (out st1)\<rparr>))))"

text \<open>
  The packed path data, decoded: one constructor per drawing op code with its
  operands (\<open>DRAW_MOVE_TO = 0\<close> to \<open>DRAW_CLOSE = 4\<close>); any other op code is
  \<open>UnknownOp\<close>, at which the loop flushes and breaks.  A record cut short of its
  operands would read \<open>undefined\<close> in the source and is not represented.
\<close>

datatype drawCmd =
    MoveTo real real
  | LineTo real real
  | CurveTo real real real real real real
  | QuadTo real real real real
  | ClosePath
  | UnknownOp

fun emitPathCommands ::
  "Mat2D \<Rightarrow> real \<Rightarrow> real \<Rightarrow> real \<Rightarrow> bool \<Rightarrow> drawCmd list \<Rightarrow> pathLocals \<Rightarrow> pathLocals" where
  "emitPathCommands m halfWidth luma alpha mg [] st = st"
| "emitPathCommands m halfWidth luma alpha mg (MoveTo x y # rest) st =
     emitPathCommands m halfWidth luma alpha mg rest
       ((flushPending halfWidth luma alpha st)
          \<lparr>cursorX := x, cursorY := y, startX := x, startY := y, hasStart := True\<rparr>)"
| "emitPathCommands m halfWidth luma alpha mg (LineTo x y # rest) st =
     (case applyMatrix m (cursorX st) (cursorY st) of (tx0, ty0) \<Rightarrow>
      (case applyMatrix m x y of (tx1, ty1) \<Rightarrow>
        emitPathCommands m halfWidth luma alpha mg rest
          ((emitLine halfWidth luma alpha mg (tx0, ty0, tx1, ty1) True st)
             \<lparr>cursorX := x, cursorY := y\<rparr>)))"
| "emitPathCommands m halfWidth luma alpha mg (CurveTo x1 y1 x2 y2 x3 y3 # rest) st =
     (case applyMatrix m (cursorX st) (cursorY st) of (t0x, t0y) \<Rightarrow>
      (case applyMatrix m x1 y1 of (t1x, t1y) \<Rightarrow>
      (case applyMatrix m x2 y2 of (t2x, t2y) \<Rightarrow>
      (case applyMatrix m x3 y3 of (t3x, t3y) \<Rightarrow>
        emitPathCommands m halfWidth luma alpha mg rest
          ((foldl (\<lambda>s c. emitLine halfWidth luma alpha mg c False s) st
              (flattenCubic t0x t0y t1x t1y t2x t2y t3x t3y
                 CURVE_FLATNESS MAX_CURVE_SPLIT_DEPTH))
             \<lparr>cursorX := x3, cursorY := y3\<rparr>)))))"
| "emitPathCommands m halfWidth luma alpha mg (QuadTo x1 y1 x2 y2 # rest) st =
     (let c1x = cursorX st + (2 / 3) * (x1 - cursorX st);
          c1y = cursorY st + (2 / 3) * (y1 - cursorY st);
          c2x = x2 + (2 / 3) * (x1 - x2);
          c2y = y2 + (2 / 3) * (y1 - y2) in
      (case applyMatrix m (cursorX st) (cursorY st) of (t0x, t0y) \<Rightarrow>
      (case applyMatrix m c1x c1y of (t1x, t1y) \<Rightarrow>
      (case applyMatrix m c2x c2y of (t2x, t2y) \<Rightarrow>
      (case applyMatrix m x2 y2 of (t3x, t3y) \<Rightarrow>
        emitPathCommands m halfWidth luma alpha mg rest
          ((foldl (\<lambda>s c. emitLine halfWidth luma alpha mg c False s) st
              (flattenCubic t0x t0y t1x t1y t2x t2y t3x t3y
                 CURVE_FLATNESS MAX_CURVE_SPLIT_DEPTH))
             \<lparr>cursorX := x2, cursorY := y2\<rparr>))))))"
| "emitPathCommands m halfWidth luma alpha mg (ClosePath # rest) st =
     (let st1 =
        (if hasStart st \<and> (cursorX st \<noteq> startX st \<or> cursorY st \<noteq> startY st)
         then (case applyMatrix m (cursorX st) (cursorY st) of (tx0, ty0) \<Rightarrow>
               (case applyMatrix m (startX st) (startY st) of (tx1, ty1) \<Rightarrow>
                 emitLine halfWidth luma alpha mg (tx0, ty0, tx1, ty1) True st))
         else st)
      in emitPathCommands m halfWidth luma alpha mg rest
           (flushPending halfWidth luma alpha
              (st1\<lparr>cursorX := startX st1, cursorY := startY st1\<rparr>)))"
| "emitPathCommands m halfWidth luma alpha mg (UnknownOp # rest) st =
     flushPending halfWidth luma alpha st"

text \<open>The result is the returned source segment count and the updated builders.\<close>

definition emitSegmentsFromPath ::
  "drawCmd list \<Rightarrow> Mat2D \<Rightarrow> real \<Rightarrow> real \<Rightarrow> real \<Rightarrow> bool \<Rightarrow> builders \<Rightarrow> nat \<times> builders" where
  "emitSegmentsFromPath pathData m halfWidth luma alpha allowSegmentMerge b =
     (let st = flushPending halfWidth luma alpha
                 (emitPathCommands m halfWidth luma alpha allowSegmentMerge pathData
                    \<lparr>sourceCount = 0, cursorX = 0, cursorY = 0, startX = 0, startY = 0,
                     hasStart = False, pending = None, out = b\<rparr>)
      in (sourceCount st, out st))"


section \<open>Visibility culling (pdfVectorExtractor.ts)\<close>

text \<open>\<open>Math.round\<close> rounds halves upwards, as \<^const>\<open>round\<close> does.\<close>

definition quantize :: "real \<Rightarrow> real \<Rightarrow> int" where
  "quantize v scale = round (v * scale)"

text \<open>
  The keys are the source's strings \<open>[...].join("|")\<close> of quantised numbers; a tuple
  of the same integers identifies the same string.
\<close>

type_synonym dupKey = "int \<times> int \<times> int \<times> int \<times> int \<times> int \<times> int"

type_synonym coverKey = "int \<times> int \<times> int \<times> int"

definition buildDuplicateKey ::
  "real \<Rightarrow> real \<Rightarrow> real \<Rightarrow> real \<Rightarrow> real \<Rightarrow> real \<Rightarrow> real \<Rightarrow> dupKey" where
  "buildDuplicateKey x0 y0 x1 y1 halfWidth luma alpha =
     (case (if x0 > x1 \<or> (x0 = x1 \<and> y0 > y1) then (x1, y1, x0, y0) else (x0, y0, x1, y1)) of
        (ax, ay, bx, by) \<Rightarrow>
          (quantize halfWidth DUPLICATE_STYLE_SCALE,
           quantize luma DUPLICATE_STYLE_SCALE,
           quantize alpha DUPLICATE_STYLE_SCALE,
           quantize ax DUPLICATE_POSITION_SCALE,
           quantize ay DUPLICATE_POSITION_SCALE,
           quantize bx DUPLICATE_POSITION_SCALE,
           quantize by DUPLICATE_POSITION_SCALE))"

record CoverageCandidate =
  candIndex :: nat
  candStart :: real
  candEnd :: real
  candHalfWidth :: real
  candAlpha :: real

definition buildCoverageCandidate ::
  "nat \<Rightarrow> real \<Rightarrow> real \<Rightarrow> real \<Rightarrow> real \<Rightarrow> real \<Rightarrow> real \<Rightarrow> real
     \<Rightarrow> coverKey \<times> CoverageCandidate" where
  "buildCoverageCandidate i x0 y0 x1 y1 halfWidth luma alpha =
     (let dx = x1 - x0; dy = y1 - y0; len = hypot dx dy;
          ux0 = dx / len; uy0 = dy / len in
      (case (if ux0 < 0 \<or> (\<bar>ux0\<bar> < 1 / 10 ^ 10 \<and> uy0 < 0)
             then (- ux0, - uy0, x1, y1, x0, y0)
             else (ux0, uy0, x0, y0, x1, y1)) of
         (ux, uy, ax, ay, bx, by) \<Rightarrow>
           (let nx = - uy; ny = ux;
                offset = nx * ax + ny * ay;
                t0 = ux * ax + uy * ay;
                t1 = ux * bx + uy * by in
            ((quantize ux COVER_DIRECTION_SCALE,
              quantize uy COVER_DIRECTION_SCALE,
              quantize offset COVER_OFFSET_SCALE,
              quantize luma DUPLICATE_STYLE_SCALE),
             \<lparr>candIndex = i, candStart = min t0 t1, candEnd = max t0 t1,
              candHalfWidth = halfWidth, candAlpha = alpha\<rparr>))))"

text \<open>
  The mutable locals of \<open>cullInvisibleSegments\<close>: the \<open>Uint8Array\<close> keep mask, the
  set of duplicate keys seen, the \<open>Map\<close> of coverage buckets in insertion order, and
  the four counters.
\<close>

record cullState =
  keepMask :: "bool list"
  seenDuplicates :: "dupKey list"
  coverageGroups :: "(coverKey \<times> CoverageCandidate list) list"
  transparentCount :: nat
  degenerateCount :: nat
  duplicateCount :: nat

fun addToGroup ::
  "coverKey \<Rightarrow> CoverageCandidate \<Rightarrow> (coverKey \<times> CoverageCandidate list) list
     \<Rightarrow> (coverKey \<times> CoverageCandidate list) list" where
  "addToGroup k c [] = [(k, [c])]"
| "addToGroup k c ((k', bucket) # gs) =
     (if k' = k then (k', bucket @ [c]) # gs else (k', bucket) # addToGroup k c gs)"

text \<open>One iteration of the first loop, for segment \<open>i\<close>.\<close>

definition classifySegment :: "quad list \<Rightarrow> quad list \<Rightarrow> cullState \<Rightarrow> nat \<Rightarrow> cullState" where
  "classifySegment es ss st i =
     (case es ! i of (x0, y0, x1, y1) \<Rightarrow>
      (case ss ! i of (halfWidth, luma, alpha, flags) \<Rightarrow>
        if alpha \<le> ALPHA_INVISIBLE_EPSILON
        then st\<lparr>transparentCount := transparentCount st + 1\<rparr>
        else
         (let dx = x1 - x0; dy = y1 - y0; lenSq = dx * dx + dy * dy in
          if lenSq < 1 / 10 ^ 10
          then st\<lparr>degenerateCount := degenerateCount st + 1\<rparr>
          else
           (let duplicateKey = buildDuplicateKey x0 y0 x1 y1 halfWidth luma alpha in
            if duplicateKey \<in> set (seenDuplicates st)
            then st\<lparr>duplicateCount := duplicateCount st + 1\<rparr>
            else
             (case buildCoverageCandidate i x0 y0 x1 y1 halfWidth luma alpha of
                (k, c) \<Rightarrow>
                  st\<lparr>seenDuplicates := seenDuplicates st @ [duplicateKey],
                     keepMask := (keepMask st)[i := True],
                     coverageGroups := addToGroup k c (coverageGroups st)\<rparr>)))))"

definition classifyAll :: "quad list \<Rightarrow> quad list \<Rightarrow> cullState" where
  "classifyAll es ss =
     foldl (classifySegment es ss)
       \<lparr>keepMask = replicate (length es) False, seenDuplicates = [], coverageGroups = [],
        transparentCount = 0, degenerateCount = 0, duplicateCount = 0\<rparr>
       [0..<length es]"

text \<open>The comparator passed to \<open>candidates.sort\<close>.\<close>

definition compareCandidates :: "CoverageCandidate \<Rightarrow> CoverageCandidate \<Rightarrow> real" where
  "compareCandidates a b =
     (if \<bar>candHalfWidth a - candHalfWidth b\<bar> > COVER_HALF_WIDTH_EPSILON
      then candHalfWidth b - candHalfWidth a
      else
       (let lenA = candEnd a - candStart a; lenB = candEnd b - candStart b in
        if \<bar>lenA - lenB\<bar> > COVER_INTERVAL_EPSILON then lenB - lenA
        else candStart a - candStart b))"

text \<open>
  \<open>Array.prototype.sort\<close> is stable, and the comparator above is not transitive, in
  which case ECMAScript leaves the resulting order to the implementation.  The model
  is the stable insertion sort that V8 and SpiderMonkey use on short arrays: each
  element moves left past its predecessors for as long as the comparator puts the
  predecessor after it.  \<open>insertCandidate\<close> works on the sorted prefix in reverse.
\<close>

fun insertCandidate :: "CoverageCandidate \<Rightarrow> CoverageCandidate list \<Rightarrow> CoverageCandidate list" where
  "insertCandidate x [] = [x]"
| "insertCandidate x (y # ys) =
     (if compareCandidates y x > 0 then y # insertCandidate x ys else x # y # ys)"

definition sortCandidates :: "CoverageCandidate list \<Rightarrow> CoverageCandidate list" where
  "sortCandidates cs = rev (foldl (\<lambda>acc x. insertCandidate x acc) [] cs)"

text \<open>The inner loop over \<open>opaqueCovers\<close>, which breaks at the first cover found.\<close>

definition isCovered :: "CoverageCandidate list \<Rightarrow> CoverageCandidate \<Rightarrow> bool" where
  "isCovered opaqueCovers candidate \<longleftrightarrow>
     (\<exists>cover \<in> set opaqueCovers.
        \<not> candHalfWidth cover + COVER_HALF_WIDTH_EPSILON < candHalfWidth candidate
        \<and> candStart cover - COVER_INTERVAL_EPSILON \<le> candStart candidate
        \<and> candEnd cover + COVER_INTERVAL_EPSILON \<ge> candEnd candidate)"

text \<open>
  The loop over the sorted candidates of one bucket; the state is the keep mask and
  \<open>discardedContainedCount\<close>.
\<close>

fun scanCandidates ::
  "CoverageCandidate list \<Rightarrow> CoverageCandidate list \<Rightarrow> bool list \<times> nat \<Rightarrow> bool list \<times> nat" where
  "scanCandidates [] opaqueCovers mc = mc"
| "scanCandidates (c # cs) opaqueCovers (keep, containedCount) =
     (if isCovered opaqueCovers c
      then scanCandidates cs opaqueCovers
             (if keep ! candIndex c then (keep[candIndex c := False], containedCount + 1)
              else (keep, containedCount))
      else scanCandidates cs
             (if candAlpha c \<ge> OPAQUE_ALPHA_EPSILON then opaqueCovers @ [c] else opaqueCovers)
             (keep, containedCount))"

definition cullGroups ::
  "(coverKey \<times> CoverageCandidate list) list \<Rightarrow> bool list \<times> nat \<Rightarrow> bool list \<times> nat" where
  "cullGroups groups mc =
     foldl (\<lambda>acc g. scanCandidates (sortCandidates (snd g)) [] acc) mc groups"

record InvisibleCullResult =
  cullSegmentCount :: nat
  cullEndpoints :: "quad list"
  cullStyles :: "quad list"
  cullBounds :: Bounds
  cullMaxHalfWidth :: real
  cullDiscardedTransparentCount :: nat
  cullDiscardedDegenerateCount :: nat
  cullDiscardedDuplicateCount :: nat
  cullDiscardedContainedCount :: nat

text \<open>The indices kept after both stages, in increasing order.\<close>

definition visibleIndices :: "quad list \<Rightarrow> quad list \<Rightarrow> nat list" where
  "visibleIndices es ss =
     (let st = classifyAll es ss;
          keep = fst (cullGroups (coverageGroups st) (keepMask st, 0))
      in filter (\<lambda>i. keep ! i) [0..<length es])"

definition cullInvisibleSegments :: "quad list \<Rightarrow> quad list \<Rightarrow> InvisibleCullResult" where
  "cullInvisibleSegments es ss =
     (let st = classifyAll es ss;
          discardedContainedCount = snd (cullGroups (coverageGroups st) (keepMask st, 0));
          visible = visibleIndices es ss;
          visibleCount = length visible
      in if visibleCount = 0
         then \<lparr>cullSegmentCount = 0, cullEndpoints = [], cullStyles = [],
               cullBounds = \<lparr>minX = 0, minY = 0, maxX = 0, maxY = 0\<rparr>,
               cullMaxHalfWidth = 0,
               cullDiscardedTransparentCount = transparentCount st,
               cullDiscardedDegenerateCount = degenerateCount st,
               cullDiscardedDuplicateCount = duplicateCount st,
               cullDiscardedContainedCount = discardedContainedCount\<rparr>
         else \<lparr>cullSegmentCount = visibleCount,
               cullEndpoints = map (\<lambda>i. es ! i) visible,
               cullStyles = map (\<lambda>i. ss ! i) visible,
               cullBounds =
                 (case foldl extendBounds None (map (\<lambda>i. es ! i) visible) of
                    Some b \<Rightarrow> b
                  | None \<Rightarrow> \<lparr>minX = 0, minY = 0, maxX = 0, maxY = 0\<rparr>),
               cullMaxHalfWidth = foldl max 0 (map (\<lambda>i. fst (ss ! i)) visible),
               cullDiscardedTransparentCount = transparentCount st,
               cullDiscardedDegenerateCount = degenerateCount st,
               cullDiscardedDuplicateCount = duplicateCount st,
               cullDiscardedContainedCount = discardedContainedCount\<rparr>)"


section \<open>Operator interpreter and scene assembly (pdfVectorExtractor.ts)\<close>

record GraphicsState =
  matrix :: Mat2D
  lineWidth :: real
  strokeLuma :: real
  strokeAlpha :: real

definition createDefaultState :: "Mat2D \<Rightarrow> GraphicsState" where
  "createDefaultState initialMatrix =
     \<lparr>matrix = initialMatrix, lineWidth = 1, strokeLuma = 0, strokeAlpha = 1\<rparr>"

text \<open>
  The operator arguments are untyped in the source (\<open>unknown\<close>) and are read through
  \<open>readTransform\<close>, \<open>readNumber\<close>, \<open>readArg\<close> and \<open>readPathData\<close>.  The model
  takes them as read: \<open>None\<close> stands for an argument that the reader rejects (missing,
  of the wrong shape or not finite).  A colour argument is the case \<open>parseLuma\<close>
  distinguishes; the components of a hex string are the parsed bytes.
\<close>

datatype colourArg =
    NumberArg real
  | HexArg real real real
  | ArrayArg real real real
  | UnusableArg

definition parseLuma :: "colourArg \<Rightarrow> real \<Rightarrow> real" where
  "parseLuma v fallback =
     (case v of
        NumberArg x \<Rightarrow> clamp01 x
      | HexArg r g b \<Rightarrow>
          clamp01 ((2126 / 10000 * r + 7152 / 10000 * g + 722 / 10000 * b) / 255)
      | ArrayArg r g b \<Rightarrow>
          (let norm = (\<lambda>entry. if entry > 1 then entry / 255 else entry) in
           clamp01 (2126 / 10000 * norm r + 7152 / 10000 * norm g + 722 / 10000 * norm b))
      | UnusableArg \<Rightarrow> fallback)"

text \<open>One \<open>[key, value]\<close> pair of a \<open>setGState\<close> argument, with \<open>Number(value)\<close> read.\<close>

datatype gsEntry = CA "real option" | LW "real option" | OtherEntry

definition applyGraphicsStateEntry :: "GraphicsState \<Rightarrow> gsEntry \<Rightarrow> GraphicsState" where
  "applyGraphicsStateEntry st pair =
     (case pair of
        CA (Some alpha) \<Rightarrow> st\<lparr>strokeAlpha := clamp01 alpha\<rparr>
      | CA None \<Rightarrow> st
      | LW (Some w) \<Rightarrow> st\<lparr>lineWidth := max 0 w\<rparr>
      | LW None \<Rightarrow> st
      | OtherEntry \<Rightarrow> st)"

definition applyGraphicsStateEntries :: "gsEntry list \<Rightarrow> GraphicsState \<Rightarrow> GraphicsState" where
  "applyGraphicsStateEntries rawEntries st = foldl applyGraphicsStateEntry st rawEntries"

datatype paintOp =
    PaintStroke
  | PaintCloseStroke
  | PaintFillStroke
  | PaintEoFillStroke
  | PaintCloseFillStroke
  | PaintCloseEOFillStroke
  | PaintOther

definition isStrokePaintOp :: "paintOp \<Rightarrow> bool" where
  "isStrokePaintOp op \<longleftrightarrow> op \<noteq> PaintOther"

text \<open>
  One entry of the operator list.  The four stroke colour operators all call
  \<open>parseLuma\<close> on their first argument and are one constructor.
\<close>

datatype operator =
    OpSave
  | OpRestore
  | OpTransform "Mat2D option"
  | OpSetLineWidth "real option"
  | OpSetStrokeColor colourArg
  | OpSetGState "gsEntry list"
  | OpConstructPath paintOp "drawCmd list option"
  | OpOther

text \<open>
  The variables of the operator loop.  The head of \<open>stateStack\<close> is the top of the
  stack.
\<close>

record interp =
  stateStack :: "GraphicsState list"
  currentState :: GraphicsState
  pathCountAcc :: nat
  sourceSegmentCountAcc :: nat
  maxHalfWidthAcc :: real
  buildersAcc :: builders

definition interpretOperator :: "bool \<Rightarrow> interp \<Rightarrow> operator \<Rightarrow> interp" where
  "interpretOperator enableSegmentMerge st fn =
     (case fn of
        OpSave \<Rightarrow> st\<lparr>stateStack := currentState st # stateStack st\<rparr>
      | OpRestore \<Rightarrow>
          (case stateStack st of
             [] \<Rightarrow> st
           | restored # below \<Rightarrow> st\<lparr>stateStack := below, currentState := restored\<rparr>)
      | OpTransform t \<Rightarrow>
          (case t of
             None \<Rightarrow> st
           | Some transform \<Rightarrow>
               st\<lparr>currentState := (currentState st)
                     \<lparr>matrix := multiplyMatrices (matrix (currentState st)) transform\<rparr>\<rparr>)
      | OpSetLineWidth w \<Rightarrow>
          (let nextWidth = (case w of Some x \<Rightarrow> x | None \<Rightarrow> lineWidth (currentState st)) in
           st\<lparr>currentState := (currentState st)\<lparr>lineWidth := max 0 nextWidth\<rparr>\<rparr>)
      | OpSetStrokeColor c \<Rightarrow>
          st\<lparr>currentState := (currentState st)
                \<lparr>strokeLuma := parseLuma c (strokeLuma (currentState st))\<rparr>\<rparr>
      | OpSetGState entries \<Rightarrow>
          st\<lparr>currentState := applyGraphicsStateEntries entries (currentState st)\<rparr>
      | OpConstructPath paint pd \<Rightarrow>
          (if \<not> isStrokePaintOp paint then st
           else
            (case pd of
               None \<Rightarrow> st
             | Some pathData \<Rightarrow>
                (let widthScale = matrixScale (matrix (currentState st));
                     strokeWidth = (if lineWidth (currentState st) > 0
                                    then lineWidth (currentState st) * widthScale
                                    else 7 / 10);
                     halfWidth = max (2 / 10) (strokeWidth * (1 / 2));
                     styleLuma = clamp01 (strokeLuma (currentState st));
                     styleAlpha = clamp01 (strokeAlpha (currentState st))
                 in (case emitSegmentsFromPath pathData (matrix (currentState st)) halfWidth
                            styleLuma styleAlpha enableSegmentMerge (buildersAcc st) of
                       (emitted, b) \<Rightarrow>
                         st\<lparr>pathCountAcc := pathCountAcc st + 1,
                            maxHalfWidthAcc := max (maxHalfWidthAcc st) halfWidth,
                            sourceSegmentCountAcc := sourceSegmentCountAcc st + emitted,
                            buildersAcc := b\<rparr>))))
      | OpOther \<Rightarrow> st)"

definition interpretOperators :: "bool \<Rightarrow> Mat2D \<Rightarrow> operator list \<Rightarrow> interp" where
  "interpretOperators enableSegmentMerge pageMatrix operatorList =
     foldl (interpretOperator enableSegmentMerge)
       \<lparr>stateStack = [], currentState = createDefaultState pageMatrix, pathCountAcc = 0,
        sourceSegmentCountAcc = 0, maxHalfWidthAcc = 0,
        buildersAcc = \<lparr>endpointBuilder = [], styleBuilder = [], boundsAcc = None\<rparr>\<rparr>
       operatorList"

definition transformBounds :: "Bounds \<Rightarrow> Mat2D \<Rightarrow> Bounds" where
  "transformBounds b m =
     (case applyMatrix m (minX b) (minY b) of (p0x, p0y) \<Rightarrow>
      (case applyMatrix m (minX b) (maxY b) of (p1x, p1y) \<Rightarrow>
      (case applyMatrix m (maxX b) (minY b) of (p2x, p2y) \<Rightarrow>
      (case applyMatrix m (maxX b) (maxY b) of (p3x, p3y) \<Rightarrow>
        \<lparr>minX = min (min (min p0x p1x) p2x) p3x, minY = min (min (min p0y p1y) p2y) p3y,
         maxX = max (max (max p0x p1x) p2x) p3x, maxY = max (max (max p0y p1y) p2y) p3y\<rparr>))))"

record VectorScene =
  segmentCount :: nat
  sourceSegmentCount :: nat
  mergedSegmentCount :: nat
  endpoints :: "quad list"
  styles :: "quad list"
  bounds :: Bounds
  pageBounds :: Bounds
  maxHalfWidth :: real
  operatorCount :: nat
  pathCount :: nat
  discardedTransparentCount :: nat
  discardedDegenerateCount :: nat
  discardedDuplicateCount :: nat
  discardedContainedCount :: nat

text \<open>
  \<open>extractFirstPageVectors\<close> after the page is loaded.  The arguments are
  \<open>page.view\<close>, the matrix returned by \<open>buildPageMatrix\<close>, the operator list and the
  two options.  The running bounds are \<open>Some\<close> whenever a segment was pushed; the
  \<open>None\<close> branch below is the start value, which the source never returns.
\<close>

definition extractFirstPageVectors ::
  "quad \<Rightarrow> Mat2D \<Rightarrow> operator list \<Rightarrow> bool \<Rightarrow> bool \<Rightarrow> VectorScene" where
  "extractFirstPageVectors pageView pageMatrix operatorList enableSegmentMerge enableInvisibleCull =
     (case pageView of (v0, v1, v2, v3) \<Rightarrow>
      (let rawPageBounds = \<lparr>minX = min v0 v2, minY = min v1 v3,
                             maxX = max v0 v2, maxY = max v1 v3\<rparr>;
           pb = transformBounds rawPageBounds pageMatrix;
           st = interpretOperators enableSegmentMerge pageMatrix operatorList;
           merged = length (endpointBuilder (buildersAcc st));
           mergedEndpoints = endpointBuilder (buildersAcc st);
           mergedStyles = styleBuilder (buildersAcc st)
       in if merged = 0
          then \<lparr>segmentCount = 0, sourceSegmentCount = sourceSegmentCountAcc st,
                mergedSegmentCount = merged, endpoints = [], styles = [],
                bounds = pb, pageBounds = pb, maxHalfWidth = 0,
                operatorCount = length operatorList, pathCount = pathCountAcc st,
                discardedTransparentCount = 0, discardedDegenerateCount = 0,
                discardedDuplicateCount = 0, discardedContainedCount = 0\<rparr>
          else if \<not> enableInvisibleCull
          then \<lparr>segmentCount = merged, sourceSegmentCount = sourceSegmentCountAcc st,
                mergedSegmentCount = merged, endpoints = mergedEndpoints,
                styles = mergedStyles,
                bounds = (case boundsAcc (buildersAcc st) of
                            Some b \<Rightarrow> b
                          | None \<Rightarrow> \<lparr>minX = 0, minY = 0, maxX = 0, maxY = 0\<rparr>),
                pageBounds = pb, maxHalfWidth = maxHalfWidthAcc st,
                operatorCount = length operatorList, pathCount = pathCountAcc st,
                discardedTransparentCount = 0, discardedDegenerateCount = 0,
                discardedDuplicateCount = 0, discardedContainedCount = 0\<rparr>
          else
           (let culled = cullInvisibleSegments mergedEndpoints mergedStyles in
            if cullSegmentCount culled = 0
            then \<lparr>segmentCount = 0, sourceSegmentCount = sourceSegmentCountAcc st,
                  mergedSegmentCount = merged, endpoints = [], styles = [],
                  bounds = pb, pageBounds = pb, maxHalfWidth = 0,
                  operatorCount = length operatorList, pathCount = pathCountAcc st,
                  discardedTransparentCount = cullDiscardedTransparentCount culled,
                  discardedDegenerateCount = cullDiscardedDegenerateCount culled,
                  discardedDuplicateCount = cullDiscardedDuplicateCount culled,
                  discardedContainedCount = cullDiscardedContainedCount culled\<rparr>
            else \<lparr>segmentCount = cullSegmentCount culled,
                  sourceSegmentCount = sourceSegmentCountAcc st,
                  mergedSegmentCount = merged, endpoints = cullEndpoints culled,
                  styles = cullStyles culled, bounds = cullBounds culled,
                  pageBounds = pb, maxHalfWidth = cullMaxHalfWidth culled,
                  operatorCount = length operatorList, pathCount = pathCountAcc st,
                  discardedTransparentCount = cullDiscardedTransparentCount culled,
                  discardedDegenerateCount = cullDiscardedDegenerateCount culled,
                  discardedDuplicateCount = cullDiscardedDuplicateCount culled,
                  discardedContainedCount = cullDiscardedContainedCount culled\<rparr>)))"


text \<open>The operator list of the spec's scenario "single horizontal stroke".\<close>

definition singleStrokeOps :: "operator list" where
  "singleStrokeOps =
     [OpSetLineWidth (Some 2), OpConstructPath PaintStroke (Some [MoveTo 0 0, LineTo 10 0])]"


section \<open>Spatial grid (spatialGrid.ts)\<close>

definition MIN_GRID_SIDE :: int where
  "MIN_GRID_SIDE = 64"

definition MAX_GRID_SIDE :: int where
  "MAX_GRID_SIDE = 1024"

definition MIN_TARGET_CELLS :: int where
  "MIN_TARGET_CELLS = 30000"

definition MAX_TARGET_CELLS :: int where
  "MAX_TARGET_CELLS = 220000"

text \<open>
  The fields \<open>minX\<close>, \<open>minY\<close>, \<open>maxX\<close>, \<open>maxY\<close> of the source's \<open>SpatialGrid\<close>
  are \<open>gridMinX\<close> to \<open>gridMaxY\<close> here (the names are taken by \<open>Bounds\<close>).  The
  three \<open>Uint32Array\<close>s are lists of naturals below \<open>2 ^ 32\<close>.
\<close>

record SpatialGrid =
  gridWidth :: nat
  gridHeight :: nat
  gridMinX :: real
  gridMinY :: real
  gridMaxX :: real
  gridMaxY :: real
  cellWidth :: real
  cellHeight :: real
  offsets :: "nat list"
  counts :: "nat list"
  indices :: "nat list"
  maxCellPopulation :: nat

text \<open>The value an element of a \<open>Uint32Array\<close> holds after a number is stored in it.\<close>

definition u32 :: "nat \<Rightarrow> nat" where
  "u32 n = n mod 2 ^ 32"

definition clamp :: "int \<Rightarrow> int \<Rightarrow> int \<Rightarrow> int" where
  "clamp v lo hi = (if v < lo then lo else if v > hi then hi else v)"

definition chooseGridSize :: "nat \<Rightarrow> real \<Rightarrow> real \<Rightarrow> nat \<times> nat" where
  "chooseGridSize segCount width height =
     (let targetCells = clamp (round (real segCount / 8)) MIN_TARGET_CELLS MAX_TARGET_CELLS;
          aspect = width / height;
          gw = round (sqrt (real_of_int targetCells * aspect));
          gh = round (real_of_int targetCells / real_of_int (max gw 1))
      in (nat (clamp gw MIN_GRID_SIDE MAX_GRID_SIDE), nat (clamp gh MIN_GRID_SIDE MAX_GRID_SIDE)))"

definition clampToCell :: "int \<Rightarrow> nat \<Rightarrow> nat" where
  "clampToCell v maxCells =
     (if v < 0 then 0 else if v \<ge> int maxCells then maxCells - 1 else nat v)"

text \<open>
  The geometry both loops of \<open>buildSpatialGrid\<close> compute for segment \<open>i\<close>: its
  margin-expanded box and the clamped cell range \<open>(c0, c1, r0, r1)\<close>.
\<close>

definition segmentBox :: "VectorScene \<Rightarrow> nat \<Rightarrow> Bounds" where
  "segmentBox scene i =
     (case endpoints scene ! i of (x0, y0, x1, y1) \<Rightarrow>
      (case styles scene ! i of (halfWidth, luma, alpha, flags) \<Rightarrow>
        (let margin = halfWidth + 35 / 100 in
         \<lparr>minX = min x0 x1 - margin, minY = min y0 y1 - margin,
          maxX = max x0 x1 + margin, maxY = max y0 y1 + margin\<rparr>)))"

definition sceneWidth :: "VectorScene \<Rightarrow> real" where
  "sceneWidth scene = max (maxX (bounds scene) - minX (bounds scene)) (1 / 10 ^ 5)"

definition sceneHeight :: "VectorScene \<Rightarrow> real" where
  "sceneHeight scene = max (maxY (bounds scene) - minY (bounds scene)) (1 / 10 ^ 5)"

definition sceneGridWidth :: "VectorScene \<Rightarrow> nat" where
  "sceneGridWidth scene =
     fst (chooseGridSize (segmentCount scene) (sceneWidth scene) (sceneHeight scene))"

definition sceneGridHeight :: "VectorScene \<Rightarrow> nat" where
  "sceneGridHeight scene =
     snd (chooseGridSize (segmentCount scene) (sceneWidth scene) (sceneHeight scene))"

definition sceneCellWidth :: "VectorScene \<Rightarrow> real" where
  "sceneCellWidth scene = sceneWidth scene / real (sceneGridWidth scene)"

definition sceneCellHeight :: "VectorScene \<Rightarrow> real" where
  "sceneCellHeight scene = sceneHeight scene / real (sceneGridHeight scene)"

definition segmentCellRange :: "VectorScene \<Rightarrow> nat \<Rightarrow> nat \<times> nat \<times> nat \<times> nat" where
  "segmentCellRange scene i =
     (let b = segmentBox scene i in
      (clampToCell \<lfloor>(minX b - minX (bounds scene)) / sceneCellWidth scene\<rfloor>
         (sceneGridWidth scene),
       clampToCell \<lfloor>(maxX b - minX (bounds scene)) / sceneCellWidth scene\<rfloor>
         (sceneGridWidth scene),
       clampToCell \<lfloor>(minY b - minY (bounds scene)) / sceneCellHeight scene\<rfloor>
         (sceneGridHeight scene),
       clampToCell \<lfloor>(maxY b - minY (bounds scene)) / sceneCellHeight scene\<rfloor>
         (sceneGridHeight scene)))"

text \<open>
  The nested \<open>for (row = r0; row <= r1) for (col = c0; col <= c1)\<close> loop, applying
  \<open>body\<close> to the running state and \<open>cellIndex = row * gridWidth + col\<close>.
\<close>

definition forCells ::
  "nat \<Rightarrow> nat \<times> nat \<times> nat \<times> nat \<Rightarrow> ('s \<Rightarrow> nat \<Rightarrow> 's) \<Rightarrow> 's \<Rightarrow> 's" where
  "forCells gw cellRange body st =
     (case cellRange of (c0, c1, r0, r1) \<Rightarrow>
        foldl (\<lambda>s row. foldl (\<lambda>s' col. body s' (row * gw + col)) s [c0..<Suc c1])
          st [r0..<Suc r1])"

text \<open>The body of the counting loop; the state is \<open>counts\<close> and \<open>maxCellPopulation\<close>.\<close>

definition countCell :: "nat list \<times> nat \<Rightarrow> nat \<Rightarrow> nat list \<times> nat" where
  "countCell st cellIndex =
     (case st of (cnts, maxPop) \<Rightarrow>
       (let next = cnts ! cellIndex + 1 in
        (cnts[cellIndex := u32 next], if next > maxPop then next else maxPop)))"

definition countSegments :: "VectorScene \<Rightarrow> nat list \<times> nat" where
  "countSegments scene =
     foldl (\<lambda>st i. forCells (sceneGridWidth scene) (segmentCellRange scene i) countCell st)
       (replicate (sceneGridWidth scene * sceneGridHeight scene) 0, 0)
       [0..<segmentCount scene]"

definition buildOffsets :: "nat list \<Rightarrow> nat \<Rightarrow> nat list" where
  "buildOffsets cnts cellCount =
     foldl (\<lambda>offs i. offs[i + 1 := u32 (offs ! i + cnts ! i)])
       (replicate (cellCount + 1) 0) [0..<cellCount]"

text \<open>
  The body of the fill loop for segment \<open>i\<close>; the state is \<open>indices\<close> and
  \<open>cursors\<close>.  A store beyond the end of a typed array is ignored, as
  \<open>xs[n := v]\<close> is.
\<close>

definition writeCell :: "nat \<Rightarrow> nat list \<times> nat list \<Rightarrow> nat \<Rightarrow> nat list \<times> nat list" where
  "writeCell i st cellIndex =
     (case st of (idx, cursors) \<Rightarrow>
       (let writeOffset = cursors ! cellIndex in
        (idx[writeOffset := u32 i], cursors[cellIndex := u32 (writeOffset + 1)])))"

definition fillSegments :: "VectorScene \<Rightarrow> nat list \<Rightarrow> nat list \<times> nat list" where
  "fillSegments scene offs =
     (let cellCount = sceneGridWidth scene * sceneGridHeight scene in
      foldl (\<lambda>st i. forCells (sceneGridWidth scene) (segmentCellRange scene i) (writeCell i) st)
        (replicate (offs ! cellCount) 0, take cellCount offs)
        [0..<segmentCount scene])"

definition buildSpatialGrid :: "VectorScene \<Rightarrow> SpatialGrid" where
  "buildSpatialGrid scene =
     (let cellCount = sceneGridWidth scene * sceneGridHeight scene;
          counted = countSegments scene;
          offs = buildOffsets (fst counted) cellCount
      in \<lparr>gridWidth = sceneGridWidth scene, gridHeight = sceneGridHeight scene,
          gridMinX = minX (bounds scene), gridMinY = minY (bounds scene),
          gridMaxX = maxX (bounds scene), gridMaxY = maxY (bounds scene),
          cellWidth = sceneCellWidth scene, cellHeight = sceneCellHeight scene,
          offsets = offs, counts = fst counted,
          indices = fst (fillSegments scene offs),
          maxCellPopulation = snd counted\<rparr>)"


section \<open>Visible set of the renderer (class GpuFloorplanRenderer)\<close>

text \<open>
  The sources hold two revisions of the class.  The earlier one
  (\<open>gpuFloorplanRenderer.ts\<close>) takes the view from its fields and falls back to all
  segments at 70 percent of the cells; the later one (with the pan cache and the
  interaction timer) takes the view as arguments, falls back at
  \<open>FULL_VIEW_FALLBACK_THRESHOLD\<close> when no interaction is active, and rejects the
  strokes whose stored box misses the view.  The definitions of the earlier revision end
  in \<open>V1\<close>; everything else is shared.

  Segment ids are kept in \<open>Float32Array\<close>s.  An element is \<open>Some n\<close> for the number
  \<open>n\<close> and \<open>None\<close> for \<open>NaN\<close>; \<open>f32\<close> is the rounding of a natural number below
  \<open>2 ^ 32\<close> to the nearest single-precision value, ties to even.  Coordinates are real
  numbers as everywhere else.
\<close>

definition f32 :: "nat \<Rightarrow> nat" where
  "f32 n =
     (if n < 2 ^ 24 then n
      else (let e = floorlog 2 n - 24; q = n div 2 ^ e; r = n mod 2 ^ e; half = 2 ^ (e - 1)
            in if r > half \<or> (r = half \<and> odd q) then (q + 1) * 2 ^ e else q * 2 ^ e))"

definition INTERACTION_DECAY_MS :: real where
  "INTERACTION_DECAY_MS = 140"

definition FULL_VIEW_FALLBACK_THRESHOLD :: real where
  "FULL_VIEW_FALLBACK_THRESHOLD = 92 / 100"

text \<open>
  The fields of the class that \<open>setScene\<close> and \<open>updateVisibleSet\<close> read or write.
  \<open>undefinedMark\<close> is the property named \<open>undefined\<close> of the object \<open>segmentMarks\<close>,
  which the scan creates when it reads past the end of \<open>grid.indices\<close>;
  \<open>lastInteractionTime\<close> is \<open>None\<close> for \<open>Number.NEGATIVE_INFINITY\<close>.  The four
  \<open>segment...\<close> box arrays and \<open>lastInteractionTime\<close> exist in the later revision only.
\<close>

record Renderer =
  rScene :: "VectorScene option"
  rGrid :: "SpatialGrid option"
  rSegmentCount :: nat
  allSegmentIds :: "nat option list"
  visibleSegmentIds :: "nat option list"
  segmentMarks :: "nat list"
  undefinedMark :: "nat option"
  segmentMinX :: "real list"
  segmentMinY :: "real list"
  segmentMaxX :: "real list"
  segmentMaxY :: "real list"
  markToken :: nat
  visibleSegmentCount :: nat
  usingAllSegments :: bool
  cameraCenterX :: real
  cameraCenterY :: real
  zoom :: real
  canvasWidth :: nat
  canvasHeight :: nat
  lastInteractionTime :: "real option"

text \<open>The field initialisers of the class.\<close>

definition newRenderer :: "nat \<Rightarrow> nat \<Rightarrow> Renderer" where
  "newRenderer width height =
     \<lparr>rScene = None, rGrid = None, rSegmentCount = 0, allSegmentIds = [],
      visibleSegmentIds = [], segmentMarks = [], undefinedMark = None,
      segmentMinX = [], segmentMinY = [], segmentMaxX = [], segmentMaxY = [],
      markToken = 1, visibleSegmentCount = 0, usingAllSegments = True,
      cameraCenterX = 0, cameraCenterY = 0, zoom = 1,
      canvasWidth = width, canvasHeight = height, lastInteractionTime = None\<rparr>"

text \<open>
  \<open>buildSegmentBounds\<close>: the four arrays are replaced when they are too short and
  their first \<open>segmentCount\<close> elements are written.
\<close>

definition storeBounds :: "real list \<Rightarrow> nat \<Rightarrow> (nat \<Rightarrow> real) \<Rightarrow> real list" where
  "storeBounds arr n f =
     foldl (\<lambda>a i. a[i := f i]) (if length arr < n then replicate n 0 else arr) [0..<n]"

definition buildSegmentBounds :: "Renderer \<Rightarrow> VectorScene \<Rightarrow> Renderer" where
  "buildSegmentBounds r scene =
     r\<lparr>segmentMinX := storeBounds (segmentMinX r) (rSegmentCount r)
                         (\<lambda>i. minX (segmentBox scene i)),
       segmentMinY := storeBounds (segmentMinY r) (rSegmentCount r)
                         (\<lambda>i. minY (segmentBox scene i)),
       segmentMaxX := storeBounds (segmentMaxX r) (rSegmentCount r)
                         (\<lambda>i. maxX (segmentBox scene i)),
       segmentMaxY := storeBounds (segmentMaxY r) (rSegmentCount r)
                         (\<lambda>i. maxY (segmentBox scene i))\<rparr>"

text \<open>
  \<open>setScene\<close> of the earlier revision, without the texture upload and the statistics.
  A new \<open>Uint32Array\<close> has no property \<open>undefined\<close>.
\<close>

definition setSceneV1 :: "Renderer \<Rightarrow> VectorScene \<Rightarrow> Renderer" where
  "setSceneV1 r scene =
     (let n = segmentCount scene;
          freshMarks = length (segmentMarks r) < n
      in r\<lparr>rScene := Some scene, rSegmentCount := n,
            rGrid := Some (buildSpatialGrid scene),
            allSegmentIds := map (\<lambda>i. Some (f32 i)) [0..<n],
            visibleSegmentIds :=
              (if length (visibleSegmentIds r) < n then replicate n (Some 0)
               else visibleSegmentIds r),
            segmentMarks := (if freshMarks then replicate n 0 else segmentMarks r),
            undefinedMark := (if freshMarks then None else undefinedMark r),
            markToken := (if freshMarks then 1 else markToken r),
            visibleSegmentCount := n, usingAllSegments := True\<rparr>)"

text \<open>\<open>setScene\<close> of the later revision: the boxes are stored first.\<close>

definition setScene :: "Renderer \<Rightarrow> VectorScene \<Rightarrow> Renderer" where
  "setScene r scene =
     setSceneV1 (buildSegmentBounds (r\<lparr>rSegmentCount := segmentCount scene\<rparr>) scene) scene"

definition clampToGrid :: "int \<Rightarrow> nat \<Rightarrow> nat" where
  "clampToGrid v gridSize =
     (if v < 0 then 0 else if v \<ge> int gridSize then gridSize - 1 else nat v)"

text \<open>
  The view rectangle with its margin, \<open>(viewMinX, viewMinY, viewMaxX, viewMaxY)\<close> as a
  \<open>Bounds\<close>, and the clamped cell range \<open>(c0, c1, r0, r1)\<close> it covers.
\<close>

definition viewBounds :: "real \<Rightarrow> real \<Rightarrow> real \<Rightarrow> real \<Rightarrow> real \<Rightarrow> real \<Rightarrow> Bounds" where
  "viewBounds z sceneMaxHalfWidth viewCenterX viewCenterY viewportWidthPx viewportHeightPx =
     (let halfViewWidth = viewportWidthPx / (2 * z);
          halfViewHeight = viewportHeightPx / (2 * z);
          margin = max (16 / z) (sceneMaxHalfWidth * 2)
      in \<lparr>minX = viewCenterX - halfViewWidth - margin,
          minY = viewCenterY - halfViewHeight - margin,
          maxX = viewCenterX + halfViewWidth + margin,
          maxY = viewCenterY + halfViewHeight + margin\<rparr>)"

definition viewCellRange :: "SpatialGrid \<Rightarrow> Bounds \<Rightarrow> nat \<times> nat \<times> nat \<times> nat" where
  "viewCellRange grid view =
     (clampToGrid \<lfloor>(minX view - gridMinX grid) / cellWidth grid\<rfloor> (gridWidth grid),
      clampToGrid \<lfloor>(maxX view - gridMinX grid) / cellWidth grid\<rfloor> (gridWidth grid),
      clampToGrid \<lfloor>(minY view - gridMinY grid) / cellHeight grid\<rfloor> (gridHeight grid),
      clampToGrid \<lfloor>(maxY view - gridMinY grid) / cellHeight grid\<rfloor> (gridHeight grid))"

definition visibleCellCount :: "nat \<times> nat \<times> nat \<times> nat \<Rightarrow> int" where
  "visibleCellCount cellRange =
     (case cellRange of (c0, c1, r0, r1) \<Rightarrow>
        (int c1 - int c0 + 1) * (int r1 - int r0 + 1))"

text \<open>
  The increment of \<open>markToken\<close> before a scan; at \<open>0xffffffff\<close> the marks are cleared
  and the token starts again at 1.
\<close>

definition bumpMarkToken :: "Renderer \<Rightarrow> Renderer" where
  "bumpMarkToken r =
     (if markToken r + 1 = 4294967295
      then r\<lparr>segmentMarks := replicate (length (segmentMarks r)) 0, markToken := 1\<rparr>
      else r\<lparr>markToken := markToken r + 1\<rparr>)"

text \<open>Reading element \<open>i\<close> of a typed array: \<open>None\<close> is \<open>undefined\<close>.\<close>

definition readArray :: "'a list \<Rightarrow> nat \<Rightarrow> 'a option" where
  "readArray xs i = (if i < length xs then Some (xs ! i) else None)"

text \<open>
  The values \<open>grid.indices[offset + i]\<close> for \<open>i < count\<close> that the innermost loop
  meets in cell \<open>cellIndex\<close>.  An undefined \<open>count\<close> ends the loop at once, and an
  undefined \<open>offset\<close> makes every index read undefined.
\<close>

definition cellEntries :: "SpatialGrid \<Rightarrow> nat \<Rightarrow> nat option list" where
  "cellEntries grid cellIndex =
     (case readArray (counts grid) cellIndex of
        None \<Rightarrow> []
      | Some count \<Rightarrow>
          map (\<lambda>i. case readArray (offsets grid) cellIndex of
                      None \<Rightarrow> None
                    | Some offset \<Rightarrow> readArray (indices grid) (offset + i))
            [0..<count])"

text \<open>
  The body of the innermost loop for one value of \<open>segmentIndex\<close>.  The state is
  \<open>segmentMarks\<close>, its property \<open>undefined\<close>, \<open>visibleSegmentIds\<close> and
  \<open>outCount\<close>; \<open>rejected\<close> is the box test of the later revision.  Reading a mark past
  the end gives \<open>undefined\<close>, which is no token, and a store past the end of a typed
  array is ignored.  With \<open>segmentIndex\<close> undefined the mark is the property
  \<open>undefined\<close>, every box comparison is false and the id stored is \<open>NaN\<close>.
\<close>

definition visitEntry ::
  "nat \<Rightarrow> (nat \<Rightarrow> bool) \<Rightarrow> nat list \<times> nat option \<times> nat option list \<times> nat
     \<Rightarrow> nat option \<Rightarrow> nat list \<times> nat option \<times> nat option list \<times> nat" where
  "visitEntry token rejected st entry =
     (case st of (marks, undefMark, ids, outCount) \<Rightarrow>
       (case entry of
          None \<Rightarrow>
            if undefMark = Some token then st
            else (marks, Some token, ids[outCount := None], outCount + 1)
        | Some segmentIndex \<Rightarrow>
            if readArray marks segmentIndex = Some token then st
            else if rejected segmentIndex
              then (marks[segmentIndex := u32 token], undefMark, ids, outCount)
              else (marks[segmentIndex := u32 token], undefMark,
                    ids[outCount := Some (f32 segmentIndex)], outCount + 1)))"

definition scanCells ::
  "SpatialGrid \<Rightarrow> nat \<times> nat \<times> nat \<times> nat \<Rightarrow> nat \<Rightarrow> (nat \<Rightarrow> bool)
     \<Rightarrow> nat list \<times> nat option \<times> nat option list \<times> nat
     \<Rightarrow> nat list \<times> nat option \<times> nat option list \<times> nat" where
  "scanCells grid cellRange token rejected st =
     forCells (gridWidth grid) cellRange
       (\<lambda>s cellIndex. foldl (visitEntry token rejected) s (cellEntries grid cellIndex)) st"

text \<open>The scan and the stores that follow it, from the state with the new token.\<close>

definition scanVisible ::
  "Renderer \<Rightarrow> SpatialGrid \<Rightarrow> nat \<times> nat \<times> nat \<times> nat \<Rightarrow> (nat \<Rightarrow> bool) \<Rightarrow> Renderer" where
  "scanVisible r grid cellRange rejected =
     (case scanCells grid cellRange (markToken r) rejected
             (segmentMarks r, undefinedMark r, visibleSegmentIds r, 0) of
        (marks, undefMark, ids, outCount) \<Rightarrow>
          r\<lparr>segmentMarks := marks, undefinedMark := undefMark,
            visibleSegmentIds := ids, visibleSegmentCount := outCount\<rparr>)"

text \<open>
  \<open>updateVisibleSet\<close> of the earlier revision
  (\<open>gpuFloorplanRenderer.ts\<close>, lines 447 to 513).
\<close>

definition updateVisibleSetV1 :: "Renderer \<Rightarrow> Renderer" where
  "updateVisibleSetV1 r =
     (case rScene r of
        None \<Rightarrow> r\<lparr>visibleSegmentCount := 0, usingAllSegments := True\<rparr>
      | Some scene \<Rightarrow>
     (case rGrid r of
        None \<Rightarrow> r\<lparr>visibleSegmentCount := 0, usingAllSegments := True\<rparr>
      | Some grid \<Rightarrow>
          (let view = viewBounds (zoom r) (maxHalfWidth scene) (cameraCenterX r)
                        (cameraCenterY r) (real (canvasWidth r)) (real (canvasHeight r));
               cellRange = viewCellRange grid view;
               totalCellCount = gridWidth grid * gridHeight grid
           in if real_of_int (visibleCellCount cellRange) \<ge> real totalCellCount * (7 / 10)
              then r\<lparr>usingAllSegments := True, visibleSegmentCount := rSegmentCount r\<rparr>
              else scanVisible (bumpMarkToken (r\<lparr>usingAllSegments := False\<rparr>))
                     grid cellRange (\<lambda>segmentIndex. False))))"

definition isInteractionActive :: "Renderer \<Rightarrow> real \<Rightarrow> bool" where
  "isInteractionActive r now =
     (case lastInteractionTime r of
        None \<Rightarrow> False
      | Some t \<Rightarrow> now - t \<le> INTERACTION_DECAY_MS)"

text \<open>
  The box test of the later revision.  A box array read past its end gives
  \<open>undefined\<close>, and a comparison with \<open>undefined\<close> is false.
\<close>

definition boxRejected :: "Renderer \<Rightarrow> Bounds \<Rightarrow> nat \<Rightarrow> bool" where
  "boxRejected r view segmentIndex \<longleftrightarrow>
     (case readArray (segmentMaxX r) segmentIndex of
        None \<Rightarrow> False | Some v \<Rightarrow> v < minX view)
     \<or> (case readArray (segmentMinX r) segmentIndex of
        None \<Rightarrow> False | Some v \<Rightarrow> v > maxX view)
     \<or> (case readArray (segmentMaxY r) segmentIndex of
        None \<Rightarrow> False | Some v \<Rightarrow> v < minY view)
     \<or> (case readArray (segmentMinY r) segmentIndex of
        None \<Rightarrow> False | Some v \<Rightarrow> v > maxY view)"

text \<open>
  \<open>updateVisibleSet\<close> of the later revision.  \<open>now\<close> is the value of
  \<open>performance.now()\<close> when \<open>isInteractionActive\<close> is called.
\<close>

definition updateVisibleSet ::
  "Renderer \<Rightarrow> real \<Rightarrow> real \<Rightarrow> real \<Rightarrow> real \<Rightarrow> real \<Rightarrow> Renderer" where
  "updateVisibleSet r viewCenterX viewCenterY viewportWidthPx viewportHeightPx now =
     (case rScene r of
        None \<Rightarrow> r\<lparr>visibleSegmentCount := 0, usingAllSegments := True\<rparr>
      | Some scene \<Rightarrow>
     (case rGrid r of
        None \<Rightarrow> r\<lparr>visibleSegmentCount := 0, usingAllSegments := True\<rparr>
      | Some grid \<Rightarrow>
          (let view = viewBounds (zoom r) (maxHalfWidth scene) viewCenterX viewCenterY
                        viewportWidthPx viewportHeightPx;
               cellRange = viewCellRange grid view;
               totalCellCount = gridWidth grid * gridHeight grid
           in if \<not> isInteractionActive r now
                 \<and> real_of_int (visibleCellCount cellRange)
                     \<ge> real totalCellCount * FULL_VIEW_FALLBACK_THRESHOLD
              then r\<lparr>usingAllSegments := True, visibleSegmentCount := rSegmentCount r\<rparr>
              else scanVisible (bumpMarkToken (r\<lparr>usingAllSegments := False\<rparr>))
                     grid cellRange (boxRejected r view))))"

text \<open>
  The instance ids a frame draws: \<open>segmentCount\<close> elements of \<open>allSegmentIds\<close> when
  \<open>usingAllSegments\<close> is set, else the first \<open>visibleSegmentCount\<close> elements of
  \<open>visibleSegmentIds\<close>.
\<close>

definition visibleInstances :: "Renderer \<Rightarrow> nat option list" where
  "visibleInstances r =
     (if usingAllSegments r then take (rSegmentCount r) (allSegmentIds r)
      else take (visibleSegmentCount r) (visibleSegmentIds r))"


section \<open>Auxiliary notions for the extractor proofs\<close>

text \<open>
  The predicates below are not part of the program: they name the loop invariants of
  the culler, of the path emitter and of the operator loop, and the quantities the
  statements about scenes refer to.
\<close>

text \<open>The number of set bits of a keep mask.\<close>

definition countKept :: "bool list \<Rightarrow> nat" where
  "countKept keep = length (filter id keep)"

text \<open>The tests a segment passes before the first loop sets its keep bit.\<close>

definition passesFilters :: "quad list \<Rightarrow> quad list \<Rightarrow> nat \<Rightarrow> bool" where
  "passesFilters es ss i \<longleftrightarrow>
     (case es ! i of (x0, y0, x1, y1) \<Rightarrow>
      (case ss ! i of (halfWidth, luma, alpha, flags) \<Rightarrow>
         alpha > ALPHA_INVISIBLE_EPSILON
         \<and> (x1 - x0) * (x1 - x0) + (y1 - y0) * (y1 - y0) \<ge> 1 / 10 ^ 10))"

text \<open>The duplicate key the first loop computes for segment \<open>i\<close>.\<close>

definition segmentDupKey :: "quad list \<Rightarrow> quad list \<Rightarrow> nat \<Rightarrow> dupKey" where
  "segmentDupKey es ss i =
     (case es ! i of (x0, y0, x1, y1) \<Rightarrow>
      (case ss ! i of (halfWidth, luma, alpha, flags) \<Rightarrow>
         buildDuplicateKey x0 y0 x1 y1 halfWidth luma alpha))"

text \<open>The segment indices that occur in the coverage buckets.\<close>

definition groupIndices :: "(coverKey \<times> CoverageCandidate list) list \<Rightarrow> nat set" where
  "groupIndices gs = candIndex ` (\<Union>g \<in> set gs. set (snd g))"

text \<open>The invariant of the first loop after \<open>i\<close> iterations.\<close>

definition classifyInv :: "quad list \<Rightarrow> quad list \<Rightarrow> nat \<Rightarrow> cullState \<Rightarrow> bool" where
  "classifyInv es ss i st \<longleftrightarrow>
     length (keepMask st) = length es
     \<and> transparentCount st + degenerateCount st + duplicateCount st + countKept (keepMask st) = i
     \<and> (\<forall>j < length es. keepMask st ! j \<longrightarrow> j < i \<and> passesFilters es ss j)
     \<and> (\<forall>j \<in> groupIndices (coverageGroups st). j < i)
     \<and> seenDuplicates st = map (segmentDupKey es ss) (filter (\<lambda>j. keepMask st ! j) [0..<i])
     \<and> distinct (seenDuplicates st)"

text \<open>What the second stage may do to the keep mask and the contained counter.\<close>

definition maskShrinks :: "bool list \<times> nat \<Rightarrow> bool list \<times> nat \<Rightarrow> bool" where
  "maskShrinks before after \<longleftrightarrow>
     length (fst after) = length (fst before)
     \<and> countKept (fst after) + snd after = countKept (fst before) + snd before
     \<and> (\<forall>j < length (fst before). fst after ! j \<longrightarrow> fst before ! j)"

text \<open>
  The invariant of \<open>emitSegmentsFromPath\<close>: the quads pushed so far plus the pending
  one never exceed the builder length at entry (\<open>base\<close>) plus the source count.
\<close>

definition pendingCount :: "pathLocals \<Rightarrow> nat" where
  "pendingCount st = (case pending st of None \<Rightarrow> 0 | Some q \<Rightarrow> 1)"

definition pathInv :: "nat \<Rightarrow> pathLocals \<Rightarrow> bool" where
  "pathInv base st \<longleftrightarrow>
     length (endpointBuilder (out st)) + pendingCount st \<le> base + sourceCount st
     \<and> length (styleBuilder (out st)) = length (endpointBuilder (out st))"

text \<open>The invariant of the operator loop.\<close>

definition interpInv :: "interp \<Rightarrow> bool" where
  "interpInv st \<longleftrightarrow>
     length (endpointBuilder (buildersAcc st)) \<le> sourceSegmentCountAcc st
     \<and> length (styleBuilder (buildersAcc st)) = length (endpointBuilder (buildersAcc st))"

text \<open>Squared length of a stroke and the alpha channel of its style record.\<close>

definition squaredLength :: "quad \<Rightarrow> real" where
  "squaredLength e = (case e of (x0, y0, x1, y1) \<Rightarrow>
     (x1 - x0) * (x1 - x0) + (y1 - y0) * (y1 - y0))"

definition styleAlpha :: "quad \<Rightarrow> real" where
  "styleAlpha s = (case s of (halfWidth, luma, alpha, flags) \<Rightarrow> alpha)"

text \<open>
  The merged arrays \<open>mergedEndpoints\<close> and \<open>mergedStyles\<close> that
  \<open>extractFirstPageVectors\<close> hands to the culler.
\<close>

definition mergedEndpointsOf :: "bool \<Rightarrow> Mat2D \<Rightarrow> operator list \<Rightarrow> quad list" where
  "mergedEndpointsOf mg pm ops = endpointBuilder (buildersAcc (interpretOperators mg pm ops))"

definition mergedStylesOf :: "bool \<Rightarrow> Mat2D \<Rightarrow> operator list \<Rightarrow> quad list" where
  "mergedStylesOf mg pm ops = styleBuilder (buildersAcc (interpretOperators mg pm ops))"

text \<open>Operator lists used to exercise the culler.\<close>

definition cullDemoOps :: "operator list" where
  "cullDemoOps =
     [OpConstructPath PaintStroke (Some [MoveTo 0 0, LineTo 10 0]),
      OpConstructPath PaintStroke (Some [MoveTo 0 0, LineTo 10 0]),
      OpSetGState [CA (Some (1 / 2000))],
      OpConstructPath PaintStroke (Some [MoveTo 0 5, LineTo 10 5]),
      OpSetGState [CA (Some 1)],
      OpConstructPath PaintStroke (Some [MoveTo 0 9, LineTo 4 9, LineTo 8 9])]"

definition transparentOps :: "operator list" where
  "transparentOps =
     [OpSetGState [CA (Some (1 / 2000))],
      OpConstructPath PaintStroke (Some [MoveTo 0 5, LineTo 10 5])]"

text \<open>
  Three opaque strokes on one line whose half-widths differ pairwise by
  \<open>0.00007\<close>, \<open>0.00008\<close> and \<open>0.00015\<close>: the comparator of the bucket sort
  treats the first two differences as ties and the third as a difference.
\<close>

definition nearWidthEndpoints :: "quad list" where
  "nearWidthEndpoints = [(0, 0, 10, 0), (1 / 100, 0, 1001 / 100, 0), (1 / 50, 0, 501 / 50, 0)]"

definition nearWidthStyles :: "quad list" where
  "nearWidthStyles = [(1, 0, 1, 0), (100007 / 100000, 0, 1, 0), (20003 / 20000, 0, 1, 0)]"

text \<open>The merged arrays of \<open>cullDemoOps\<close>.\<close>

definition demoEndpoints :: "quad list" where
  "demoEndpoints = [(0, 0, 10, 0), (0, 0, 10, 0), (0, 5, 10, 5), (0, 9, 8, 9)]"

definition demoStyles :: "quad list" where
  "demoStyles = [(1 / 2, 0, 1, 0), (1 / 2, 0, 1, 0), (1 / 2, 0, 1 / 2000, 0), (1 / 2, 0, 1, 0)]"

section \<open>Auxiliary notions for the grid proofs\<close>

text \<open>
  The definitions below are not part of the program: they name the list of cell
  memberships both passes of \<open>buildSpatialGrid\<close> run over, the loop invariants of the
  two passes, and the scenes the grid is evaluated on.
\<close>

text \<open>
  The cell indices the nested loop of \<open>forCells\<close> visits, in its order; the cells of
  segment \<open>i\<close>; and the pairs (segment, cell) in the order in which both passes of
  \<open>buildSpatialGrid\<close> meet them.  \<open>totalMemberships\<close> is their number, the length
  \<open>indices\<close> would need.
\<close>

definition cellsInRange :: "nat \<Rightarrow> nat \<times> nat \<times> nat \<times> nat \<Rightarrow> nat list" where
  "cellsInRange gw cellRange =
     (case cellRange of (c0, c1, r0, r1) \<Rightarrow>
        concat (map (\<lambda>row. map (\<lambda>col. row * gw + col) [c0..<Suc c1]) [r0..<Suc r1]))"

definition segmentCells :: "VectorScene \<Rightarrow> nat \<Rightarrow> nat list" where
  "segmentCells scene i = cellsInRange (sceneGridWidth scene) (segmentCellRange scene i)"

definition membershipWrites :: "VectorScene \<Rightarrow> (nat \<times> nat) list" where
  "membershipWrites scene =
     concat (map (\<lambda>i. map (\<lambda>c. (i, c)) (segmentCells scene i)) [0..<segmentCount scene])"

definition totalMemberships :: "VectorScene \<Rightarrow> nat" where
  "totalMemberships scene = length (membershipWrites scene)"

definition sceneCellCount :: "VectorScene \<Rightarrow> nat" where
  "sceneCellCount scene = sceneGridWidth scene * sceneGridHeight scene"

text \<open>What the counting loop computes from a state \<open>(cs, mx)\<close> over the cells \<open>bs\<close>.\<close>

definition countedFrom :: "nat list \<Rightarrow> nat list \<Rightarrow> nat list \<times> nat \<Rightarrow> bool" where
  "countedFrom cs bs res \<longleftrightarrow>
     length (fst res) = length cs
     \<and> (\<forall>c < length cs. fst res ! c = cs ! c + count_list bs c)
     \<and> sum_list (fst res) = sum_list cs + length bs
     \<and> (\<forall>v \<in> set (fst res). v \<le> snd res)
     \<and> snd res \<in> insert 0 (set (fst res))"

text \<open>
  The invariant of the fill loop after the writes \<open>prior\<close>: every cursor has advanced by
  the number of writes to its cell, and every write is found in the slice of its cell.
\<close>

definition fillInv ::
  "nat list \<Rightarrow> nat \<Rightarrow> (nat \<times> nat) list \<Rightarrow> nat list \<times> nat list \<Rightarrow> bool" where
  "fillInv offs m prior st \<longleftrightarrow>
     length (fst st) = offs ! m \<and> length (snd st) = m
     \<and> (\<forall>c < m. snd st ! c = offs ! c + count_list (map snd prior) c)
     \<and> (\<forall>w \<in> set prior. \<exists>k < count_list (map snd prior) (snd w).
            fst st ! (offs ! snd w + k) = fst w)"

text \<open>
  The scene fits the \<open>Uint32Array\<close>s of the grid: neither a segment index nor the
  total number of cell memberships reaches \<open>2 ^ 32\<close>.
\<close>

definition gridFits :: "VectorScene \<Rightarrow> bool" where
  "gridFits scene \<longleftrightarrow> segmentCount scene < 2 ^ 32 \<and> totalMemberships scene < 2 ^ 32"



text \<open>
  A scene of one stroke along the diagonal of its bounds \<open>(0, 0, 3, 1)\<close>; its grid
  has 300 by 100 cells and the stroke's box covers all of them.
\<close>

definition stripScene :: VectorScene where
  "stripScene =
     \<lparr>segmentCount = 1, sourceSegmentCount = 1, mergedSegmentCount = 1,
      endpoints = [(0, 0, 3, 1)], styles = [(1 / 2, 0, 1, 0)],
      bounds = \<lparr>minX = 0, minY = 0, maxX = 3, maxY = 1\<rparr>,
      pageBounds = \<lparr>minX = 0, minY = 0, maxX = 3, maxY = 1\<rparr>,
      maxHalfWidth = 1 / 2, operatorCount = 2, pathCount = 1,
      discardedTransparentCount = 0, discardedDegenerateCount = 0,
      discardedDuplicateCount = 0, discardedContainedCount = 0\<rparr>"


text \<open>
  A renderer holding \<open>stripScene\<close> on a canvas of 64 by 16 pixels at zoom 16, looking
  at the lower four fifths of the scene: the view covers the cells of all 300 columns
  and of the rows 0 to 79.
\<close>

definition lowerViewV1 :: Renderer where
  "lowerViewV1 =
     (setSceneV1 (newRenderer 64 16) stripScene)
       \<lparr>cameraCenterX := 3 / 2, cameraCenterY := - (141 / 200), zoom := 16\<rparr>"

definition lowerView :: Renderer where
  "lowerView = (setScene (newRenderer 64 16) stripScene)\<lparr>zoom := 16\<rparr>"

section \<open>Verified properties\<close>






lemma trim_length:
  "trimTextureForItemCount src n = Inr xs \<Longrightarrow> length xs = n"
  by (auto simp: trimTextureForItemCount_def split: if_splits)








lemma hypot_axis: "hypot x 0 = \<bar>x\<bar>" "hypot 0 y = \<bar>y\<bar>"
  by (simp_all add: hypot_def)

lemmas interp_eval = interpretOperators_def interpretOperator_def
  createDefaultState_def IDENTITY_MATRIX_def matrixScale_def hypot_axis emitSegmentsFromPath_def
  flushPending_def emitLine_def tryMergePending_def applyMatrix_def pushSegment_def
  extendBounds_def clamp01_def isStrokePaintOp_def Let_def

lemmas cull_eval = cullInvisibleSegments_def visibleIndices_def classifyAll_def
  classifySegment_def buildDuplicateKey_def buildCoverageCandidate_def cullGroups_def
  sortCandidates_def isCovered_def quantize_def hypot_axis extendBounds_def Let_def
  ALPHA_INVISIBLE_EPSILON_def

lemma interp_single:
  "interpretOperators mg IDENTITY_MATRIX singleStrokeOps =
     \<lparr>stateStack = [],
      currentState = \<lparr>matrix = (1, 0, 0, 1, 0, 0), lineWidth = 2, strokeLuma = 0,
                       strokeAlpha = 1\<rparr>,
      pathCountAcc = 1, sourceSegmentCountAcc = 1, maxHalfWidthAcc = 1,
      buildersAcc = \<lparr>endpointBuilder = [(0, 0, 10, 0)], styleBuilder = [(1, 0, 1, 0)],
        boundsAcc = Some \<lparr>minX = 0, minY = 0, maxX = 10, maxY = 0\<rparr>\<rparr>\<rparr>"
  by (cases mg) (simp_all add: singleStrokeOps_def interp_eval)

lemma cull_single:
  "cullInvisibleSegments [(0, 0, 10, 0)] [(1, 0, 1, 0)] =
     \<lparr>cullSegmentCount = 1, cullEndpoints = [(0, 0, 10, 0)], cullStyles = [(1, 0, 1, 0)],
      cullBounds = \<lparr>minX = 0, minY = 0, maxX = 10, maxY = 0\<rparr>,
      cullMaxHalfWidth = 1,
      cullDiscardedTransparentCount = 0, cullDiscardedDegenerateCount = 0,
      cullDiscardedDuplicateCount = 0, cullDiscardedContainedCount = 0\<rparr>"
  by (simp add: cull_eval)

text \<open>
  Claim C3 (as amended).  For the operator list
  \<open>[set_line_width(2), construct_path(stroke, [MoveTo 0 0, LineTo 10 0])]\<close> under the
  identity page matrix, whatever the page view and the two options, the scene has one
  segment with endpoints \<open>(0, 0, 10, 0)\<close>, half-width 1, luma 0 and alpha 1; its
  \<open>bounds\<close> are the plain endpoint box \<open>(0, 0, 10, 0)\<close>.
\<close>

theorem single_horizontal_stroke:
  "segmentCount (extractFirstPageVectors pv IDENTITY_MATRIX singleStrokeOps mg cull) = 1
   \<and> endpoints (extractFirstPageVectors pv IDENTITY_MATRIX singleStrokeOps mg cull)
        = [(0, 0, 10, 0)]
   \<and> styles (extractFirstPageVectors pv IDENTITY_MATRIX singleStrokeOps mg cull)
        = [(1, 0, 1, 0)]
   \<and> maxHalfWidth (extractFirstPageVectors pv IDENTITY_MATRIX singleStrokeOps mg cull) = 1
   \<and> bounds (extractFirstPageVectors pv IDENTITY_MATRIX singleStrokeOps mg cull)
        = \<lparr>minX = 0, minY = 0, maxX = 10, maxY = 0\<rparr>
   \<and> sourceSegmentCount (extractFirstPageVectors pv IDENTITY_MATRIX singleStrokeOps mg cull) = 1
   \<and> mergedSegmentCount (extractFirstPageVectors pv IDENTITY_MATRIX singleStrokeOps mg cull) = 1"
  by (cases pv; cases cull)
     (simp_all add: extractFirstPageVectors_def interp_single cull_single Let_def)

text \<open>
  Claim C3 as stated fails in its last part: the scene bounds are not the endpoint box
  expanded by \<open>half_width + 0.35 = 1.35\<close>.
\<close>

theorem single_horizontal_stroke_bounds_counterexample:
  "bounds (extractFirstPageVectors (0, 0, 100, 100) IDENTITY_MATRIX singleStrokeOps True True)
      = \<lparr>minX = 0, minY = 0, maxX = 10, maxY = 0\<rparr>
   \<and> bounds (extractFirstPageVectors (0, 0, 100, 100) IDENTITY_MATRIX singleStrokeOps True True)
      \<noteq> \<lparr>minX = - (135 / 100), minY = - (135 / 100), maxX = 1135 / 100, maxY = 135 / 100\<rparr>"
  by (simp add: extractFirstPageVectors_def interp_single cull_single Let_def)


subsection \<open>Culling and scene assembly\<close>

lemma foldl_upt_invariant:
  assumes "P 0 s0" and "\<And>i s. i < n \<Longrightarrow> P i s \<Longrightarrow> P (Suc i) (f s i)"
  shows "P n (foldl f s0 [0..<n])"
  using assms
proof (induction n)
  case 0
  then show ?case by simp
next
  case (Suc n)
  have "P n (foldl f s0 [0..<n])"
    by (rule Suc.IH) (use Suc.prems in auto)
  then show ?case using Suc.prems(2) [of n] by simp
qed

lemma foldl_invariant:
  assumes "P s0" and "\<And>s x. x \<in> set xs \<Longrightarrow> P s \<Longrightarrow> P (f s x)"
  shows "P (foldl f s0 xs)"
  using assms by (induction xs arbitrary: s0) auto

lemma countKept_set:
  "i < length keep \<Longrightarrow> \<not> keep ! i \<Longrightarrow> countKept (keep[i := True]) = Suc (countKept keep)"
  unfolding countKept_def
proof (induction keep arbitrary: i)
  case Nil
  then show ?case by simp
next
  case (Cons a keep)
  then show ?case by (cases i) auto
qed

lemma countKept_clear:
  "i < length keep \<Longrightarrow> keep ! i \<Longrightarrow> Suc (countKept (keep[i := False])) = countKept keep"
  unfolding countKept_def
proof (induction keep arbitrary: i)
  case Nil
  then show ?case by simp
next
  case (Cons a keep)
  then show ?case by (cases i) auto
qed

lemma countKept_indices:
  "length (filter (\<lambda>i. keep ! i) [0..<length keep]) = countKept keep"
proof -
  have "filter id (map (\<lambda>i. keep ! i) [0..<length keep])
          = map (\<lambda>i. keep ! i) (filter (\<lambda>i. keep ! i) [0..<length keep])"
    by (simp add: filter_map comp_def)
  then have "length (filter id (map (\<lambda>i. keep ! i) [0..<length keep]))
          = length (filter (\<lambda>i. keep ! i) [0..<length keep])"
    by simp
  then show ?thesis by (simp add: countKept_def map_nth)
qed

lemma countKept_replicate: "countKept (replicate n False) = 0"
  by (simp add: countKept_def)

lemma addToGroup_members:
  "(\<Union>g \<in> set (addToGroup k c gs). set (snd g)) = insert c (\<Union>g \<in> set gs. set (snd g))"
proof (induction gs)
  case Nil
  show ?case by simp
next
  case (Cons g gs)
  obtain k' b where g: "g = (k', b)" by (cases g)
  show ?case
  proof (cases "k' = k")
    case True
    then show ?thesis by (simp add: g)
  next
    case False
    then show ?thesis using Cons.IH by (simp add: g)
  qed
qed

lemma groupIndices_addToGroup:
  "groupIndices (addToGroup k c gs) = insert (candIndex c) (groupIndices gs)"
  unfolding groupIndices_def addToGroup_members by simp

lemma buildCoverageCandidate_index:
  "buildCoverageCandidate i x0 y0 x1 y1 h l a = (k, c) \<Longrightarrow> candIndex c = i"
  by (auto simp: buildCoverageCandidate_def Let_def split: if_splits)

lemma filter_keep_update:
  assumes "i < length keep"
  shows "filter (\<lambda>j. keep[i := True] ! j) [0..<Suc i]
           = filter (\<lambda>j. keep ! j) [0..<i] @ [i]"
proof -
  have "filter (\<lambda>j. keep[i := True] ! j) [0..<i] = filter (\<lambda>j. keep ! j) [0..<i]"
    by (rule filter_cong) auto
  with assms show ?thesis by simp
qed

lemma classifyInv_step:
  assumes inv: "classifyInv es ss i st" and i: "i < length es"
  shows "classifyInv es ss (Suc i) (classifySegment es ss st i)"
proof -
  obtain x0 y0 x1 y1 where e: "es ! i = (x0, y0, x1, y1)" by (cases "es ! i") auto
  obtain h l a f where s: "ss ! i = (h, l, a, f)" by (cases "ss ! i") auto
  from inv have len: "length (keepMask st) = length es"
    and cnt: "transparentCount st + degenerateCount st + duplicateCount st
                + countKept (keepMask st) = i"
    and kept: "\<forall>j < length es. keepMask st ! j \<longrightarrow> j < i \<and> passesFilters es ss j"
    and grp: "\<forall>j \<in> groupIndices (coverageGroups st). j < i"
    and seen: "seenDuplicates st
                 = map (segmentDupKey es ss) (filter (\<lambda>j. keepMask st ! j) [0..<i])"
    and dist: "distinct (seenDuplicates st)"
    unfolding classifyInv_def by blast+
  from kept i have noti: "\<not> keepMask st ! i" by auto
  then have same: "filter (\<lambda>j. keepMask st ! j) [0..<Suc i]
                     = filter (\<lambda>j. keepMask st ! j) [0..<i]" by simp
  show ?thesis
  proof (cases "a \<le> ALPHA_INVISIBLE_EPSILON")
    case True
    then have "classifySegment es ss st i = st\<lparr>transparentCount := transparentCount st + 1\<rparr>"
      by (simp add: classifySegment_def e s)
    then show ?thesis
      using len cnt kept grp seen dist same
      by (auto simp: classifyInv_def less_Suc_eq)
  next
    case na: False
    show ?thesis
    proof (cases "(x1 - x0) * (x1 - x0) + (y1 - y0) * (y1 - y0) < 1 / 10 ^ 10")
      case True
      then have "classifySegment es ss st i = st\<lparr>degenerateCount := degenerateCount st + 1\<rparr>"
        using na by (simp add: classifySegment_def e s Let_def)
      then show ?thesis
        using len cnt kept grp seen dist same
        by (auto simp: classifyInv_def less_Suc_eq)
    next
      case nd: False
      show ?thesis
      proof (cases "segmentDupKey es ss i \<in> set (seenDuplicates st)")
        case True
        then have "classifySegment es ss st i = st\<lparr>duplicateCount := duplicateCount st + 1\<rparr>"
          using na nd by (simp add: classifySegment_def segmentDupKey_def e s Let_def)
        then show ?thesis
          using len cnt kept grp seen dist same
          by (auto simp: classifyInv_def less_Suc_eq)
      next
        case nk: False
        obtain k c where kc: "buildCoverageCandidate i x0 y0 x1 y1 h l a = (k, c)"
          by (cases "buildCoverageCandidate i x0 y0 x1 y1 h l a") auto
        have r: "classifySegment es ss st i =
                   st\<lparr>seenDuplicates := seenDuplicates st @ [segmentDupKey es ss i],
                      keepMask := (keepMask st)[i := True],
                      coverageGroups := addToGroup k c (coverageGroups st)\<rparr>"
          using na nd nk kc by (simp add: classifySegment_def segmentDupKey_def e s Let_def)
        have pf: "passesFilters es ss i"
          using na nd by (simp add: passesFilters_def e s)
        have c1: "countKept ((keepMask st)[i := True]) = Suc (countKept (keepMask st))"
          using countKept_set [of i "keepMask st"] i len noti by simp
        have c2: "\<forall>j < length es. (keepMask st)[i := True] ! j
                     \<longrightarrow> j < Suc i \<and> passesFilters es ss j"
          using kept pf i len by (auto simp: nth_list_update less_Suc_eq)
        have c3: "\<forall>j \<in> groupIndices (addToGroup k c (coverageGroups st)). j < Suc i"
          using grp buildCoverageCandidate_index [OF kc]
          by (auto simp: groupIndices_addToGroup less_Suc_eq)
        have c4: "seenDuplicates st @ [segmentDupKey es ss i]
                    = map (segmentDupKey es ss)
                        (filter (\<lambda>j. (keepMask st)[i := True] ! j) [0..<Suc i])"
          using filter_keep_update [of i "keepMask st"] i len seen by simp
        have c5: "distinct (seenDuplicates st @ [segmentDupKey es ss i])"
          using dist nk by simp
        show ?thesis
          unfolding r classifyInv_def using len cnt c1 c2 c3 c4 c5 by simp
      qed
    qed
  qed
qed

lemma classifyInv_final: "classifyInv es ss (length es) (classifyAll es ss)"
  unfolding classifyAll_def
proof (rule foldl_upt_invariant [where P = "classifyInv es ss"])
  show "classifyInv es ss 0
     \<lparr>keepMask = replicate (length es) False, seenDuplicates = [], coverageGroups = [],
        transparentCount = 0, degenerateCount = 0, duplicateCount = 0\<rparr>"
    by (simp add: classifyInv_def countKept_replicate groupIndices_def)
next
  fix i s
  assume "i < length es" "classifyInv es ss i s"
  then show "classifyInv es ss (Suc i) (classifySegment es ss s i)"
    by (rule classifyInv_step [rotated])
qed

lemma insertCandidate_set: "set (insertCandidate x ys) = insert x (set ys)"
  by (induction ys) auto

lemma foldl_insertCandidate_set:
  "set (foldl (\<lambda>acc x. insertCandidate x acc) acc cs) = set acc \<union> set cs"
  by (induction cs arbitrary: acc) (auto simp: insertCandidate_set)

lemma sortCandidates_set: "set (sortCandidates cs) = set cs"
  by (simp add: sortCandidates_def foldl_insertCandidate_set)

lemma maskShrinks_refl: "maskShrinks a a"
  by (simp add: maskShrinks_def)

lemma maskShrinks_trans: "maskShrinks a b \<Longrightarrow> maskShrinks b c \<Longrightarrow> maskShrinks a c"
  by (auto simp: maskShrinks_def)

lemma maskShrinks_clear:
  assumes "i < length keep" and "keep ! i"
  shows "maskShrinks (keep, cnt) (keep[i := False], cnt + 1)"
  using assms countKept_clear [of i keep]
  by (auto simp: maskShrinks_def nth_list_update)

lemma scanCandidates_shrinks:
  assumes "\<forall>c \<in> set cs. candIndex c < length keep"
  shows "maskShrinks (keep, cnt) (scanCandidates cs covers (keep, cnt))"
  using assms
proof (induction cs arbitrary: covers keep cnt)
  case Nil
  show ?case by (simp add: maskShrinks_refl)
next
  case (Cons c cs)
  show ?case
  proof (cases "isCovered covers c")
    case cov: True
    show ?thesis
    proof (cases "keep ! candIndex c")
      case True
      have a: "maskShrinks (keep, cnt) (keep[candIndex c := False], cnt + 1)"
        using Cons.prems True by (intro maskShrinks_clear) auto
      have b: "maskShrinks (keep[candIndex c := False], cnt + 1)
                 (scanCandidates cs covers (keep[candIndex c := False], cnt + 1))"
        using Cons.prems by (intro Cons.IH) auto
      from maskShrinks_trans [OF a b] cov True show ?thesis by simp
    next
      case False
      have "maskShrinks (keep, cnt) (scanCandidates cs covers (keep, cnt))"
        using Cons.prems by (intro Cons.IH) auto
      with cov False show ?thesis by simp
    qed
  next
    case False
    have "maskShrinks (keep, cnt)
            (scanCandidates cs
               (if candAlpha c \<ge> OPAQUE_ALPHA_EPSILON then covers @ [c] else covers) (keep, cnt))"
      using Cons.prems by (intro Cons.IH) auto
    with False show ?thesis by simp
  qed
qed

lemma cullGroups_shrinks:
  assumes "\<forall>j \<in> groupIndices gs. j < length keep"
  shows "maskShrinks (keep, cnt) (cullGroups gs (keep, cnt))"
  unfolding cullGroups_def
proof (rule foldl_invariant [where P = "maskShrinks (keep, cnt)"])
  show "maskShrinks (keep, cnt) (keep, cnt)" by (rule maskShrinks_refl)
next
  fix s g
  assume g: "g \<in> set gs" and s: "maskShrinks (keep, cnt) s"
  obtain k2 c2 where s2: "s = (k2, c2)" by (cases s)
  from s have len: "length k2 = length keep" by (simp add: maskShrinks_def s2)
  have "\<forall>c \<in> set (sortCandidates (snd g)). candIndex c < length k2"
    using assms g by (auto simp: sortCandidates_set groupIndices_def len)
  then have "maskShrinks (k2, c2) (scanCandidates (sortCandidates (snd g)) [] (k2, c2))"
    by (rule scanCandidates_shrinks)
  with s show "maskShrinks (keep, cnt) (scanCandidates (sortCandidates (snd g)) [] s)"
    unfolding s2 by (rule maskShrinks_trans)
qed

lemma cull_stage2:
  "maskShrinks (keepMask (classifyAll es ss), 0)
     (cullGroups (coverageGroups (classifyAll es ss)) (keepMask (classifyAll es ss), 0))"
proof (rule cullGroups_shrinks)
  from classifyInv_final [of es ss]
  show "\<forall>j \<in> groupIndices (coverageGroups (classifyAll es ss)).
          j < length (keepMask (classifyAll es ss))"
    by (simp add: classifyInv_def)
qed

lemma visibleIndices_length:
  "length (visibleIndices es ss)
     = countKept (fst (cullGroups (coverageGroups (classifyAll es ss))
                         (keepMask (classifyAll es ss), 0)))"
proof -
  let ?k = "fst (cullGroups (coverageGroups (classifyAll es ss)) (keepMask (classifyAll es ss), 0))"
  have "length ?k = length es"
    using cull_stage2 [of es ss] classifyInv_final [of es ss]
    by (simp add: maskShrinks_def classifyInv_def)
  then show ?thesis
    using countKept_indices [of ?k] by (simp add: visibleIndices_def Let_def)
qed

lemma visibleIndices_passes:
  assumes "i \<in> set (visibleIndices es ss)"
  shows "i < length es \<and> keepMask (classifyAll es ss) ! i \<and> passesFilters es ss i"
proof -
  let ?st = "classifyAll es ss"
  let ?k = "fst (cullGroups (coverageGroups ?st) (keepMask ?st, 0))"
  from assms have i: "i < length es" and k: "?k ! i"
    by (simp_all add: visibleIndices_def Let_def)
  have len: "length (keepMask ?st) = length es"
    using classifyInv_final [of es ss] by (simp add: classifyInv_def)
  from cull_stage2 [of es ss] i k len have "keepMask ?st ! i"
    by (simp add: maskShrinks_def)
  with classifyInv_final [of es ss] i show ?thesis
    by (simp add: classifyInv_def)
qed

lemma cull_fields:
  "cullSegmentCount (cullInvisibleSegments es ss) = length (visibleIndices es ss)"
  "cullEndpoints (cullInvisibleSegments es ss) = map (\<lambda>i. es ! i) (visibleIndices es ss)"
  "cullStyles (cullInvisibleSegments es ss) = map (\<lambda>i. ss ! i) (visibleIndices es ss)"
  "cullDiscardedTransparentCount (cullInvisibleSegments es ss)
     = transparentCount (classifyAll es ss)"
  "cullDiscardedDegenerateCount (cullInvisibleSegments es ss)
     = degenerateCount (classifyAll es ss)"
  "cullDiscardedDuplicateCount (cullInvisibleSegments es ss)
     = duplicateCount (classifyAll es ss)"
  "cullDiscardedContainedCount (cullInvisibleSegments es ss)
     = snd (cullGroups (coverageGroups (classifyAll es ss)) (keepMask (classifyAll es ss), 0))"
  by (simp_all add: cullInvisibleSegments_def Let_def)

lemma cull_partition:
  "cullDiscardedTransparentCount (cullInvisibleSegments es ss)
   + cullDiscardedDegenerateCount (cullInvisibleSegments es ss)
   + cullDiscardedDuplicateCount (cullInvisibleSegments es ss)
   + cullDiscardedContainedCount (cullInvisibleSegments es ss)
   + cullSegmentCount (cullInvisibleSegments es ss) = length es"
proof -
  let ?st = "classifyAll es ss"
  let ?r = "cullGroups (coverageGroups ?st) (keepMask ?st, 0)"
  have a: "transparentCount ?st + degenerateCount ?st + duplicateCount ?st
             + countKept (keepMask ?st) = length es"
    using classifyInv_final [of es ss] by (simp add: classifyInv_def)
  have b: "countKept (fst ?r) + snd ?r = countKept (keepMask ?st)"
    using cull_stage2 [of es ss] by (simp add: maskShrinks_def)
  show ?thesis
    unfolding cull_fields visibleIndices_length using a b by simp
qed

lemma pathInv_flushPending:
  "pathInv base st \<Longrightarrow> pathInv base (flushPending h l a st)"
  by (auto simp: pathInv_def flushPending_def pendingCount_def pushSegment_def
      split: option.splits)

lemma pending_flushPending: "pending (flushPending h l a st) = None"
  by (simp add: flushPending_def split: option.splits)

lemma tryMergePending_Some:
  "tryMergePending q st = Some p \<Longrightarrow> pending st \<noteq> None"
  by (auto simp: tryMergePending_def split: option.splits)

lemma pathInv_emitLine:
  assumes "pathInv base st"
  shows "pathInv base (emitLine h l a mg q am st)"
  using assms
  by (cases q)
     (auto simp: emitLine_def Let_def pathInv_def pendingCount_def flushPending_def
        pushSegment_def split: option.splits if_splits dest: tryMergePending_Some)

lemma pathInv_cursor:
  "pathInv base (st\<lparr>cursorX := x, cursorY := y\<rparr>) = pathInv base st"
  "pathInv base (st\<lparr>cursorX := x, cursorY := y, startX := sx, startY := sy, hasStart := b\<rparr>)
     = pathInv base st"
  by (simp_all add: pathInv_def pendingCount_def)

lemma pathInv_chords:
  "pathInv base st \<Longrightarrow> pathInv base (foldl (\<lambda>s c. emitLine h l a mg c False s) st cs)"
  by (rule foldl_invariant [where P = "pathInv base"]) (auto intro: pathInv_emitLine)

lemma pathInv_emitPathCommands:
  "pathInv base st \<Longrightarrow> pathInv base (emitPathCommands m h l a mg cmds st)"
proof (induction cmds arbitrary: st)
  case Nil
  then show ?case by simp
next
  case (Cons c rest)
  show ?case
  proof (cases c)
    case (MoveTo x y)
    with Cons show ?thesis by (simp add: pathInv_cursor pathInv_flushPending)
  next
    case (LineTo x y)
    with Cons show ?thesis
      by (simp add: case_prod_beta pathInv_cursor pathInv_emitLine)
  next
    case (CurveTo x1 y1 x2 y2 x3 y3)
    with Cons show ?thesis
      by (simp add: case_prod_beta pathInv_cursor pathInv_chords)
  next
    case (QuadTo x1 y1 x2 y2)
    with Cons show ?thesis
      by (simp add: case_prod_beta Let_def pathInv_cursor pathInv_chords)
  next
    case ClosePath
    with Cons show ?thesis
      by (simp add: case_prod_beta Let_def pathInv_cursor pathInv_emitLine
          pathInv_flushPending)
  next
    case UnknownOp
    with Cons show ?thesis by (simp add: pathInv_flushPending)
  qed
qed

lemma emitSegmentsFromPath_counts:
  assumes "emitSegmentsFromPath pd m h l a mg b = (emitted, b')"
    and "length (styleBuilder b) = length (endpointBuilder b)"
  shows "length (endpointBuilder b') \<le> length (endpointBuilder b) + emitted
         \<and> length (styleBuilder b') = length (endpointBuilder b')"
proof -
  let ?init = "\<lparr>sourceCount = 0, cursorX = 0, cursorY = 0, startX = 0, startY = 0,
                     hasStart = False, pending = None, out = b\<rparr>"
  let ?fin = "flushPending h l a (emitPathCommands m h l a mg pd ?init)"
  have "pathInv (length (endpointBuilder b)) ?init"
    using assms(2) by (simp add: pathInv_def pendingCount_def)
  then have "pathInv (length (endpointBuilder b)) ?fin"
    by (intro pathInv_flushPending pathInv_emitPathCommands)
  moreover from assms(1) have "emitted = sourceCount ?fin" "b' = out ?fin"
    by (simp_all add: emitSegmentsFromPath_def Let_def)
  ultimately show ?thesis by (simp add: pathInv_def)
qed

lemma interpInv_step:
  assumes "interpInv st"
  shows "interpInv (interpretOperator mg st fn)"
proof (cases fn)
  case (OpConstructPath paint pd)
  show ?thesis
  proof (cases "isStrokePaintOp paint")
    case False
    with assms OpConstructPath show ?thesis by (simp add: interpretOperator_def)
  next
    case sp: True
    show ?thesis
    proof (cases pd)
      case None
      with assms OpConstructPath show ?thesis by (simp add: interpretOperator_def)
    next
      case (Some pathData)
      define hw where "hw = max (2 / 10)
        ((if lineWidth (currentState st) > 0
          then lineWidth (currentState st) * matrixScale (matrix (currentState st))
          else 7 / 10) * (1 / 2))"
      obtain emitted b where
        e: "emitSegmentsFromPath pathData (matrix (currentState st)) hw
              (clamp01 (strokeLuma (currentState st))) (clamp01 (strokeAlpha (currentState st)))
              mg (buildersAcc st) = (emitted, b)"
        by (cases "emitSegmentsFromPath pathData (matrix (currentState st)) hw
              (clamp01 (strokeLuma (currentState st))) (clamp01 (strokeAlpha (currentState st)))
              mg (buildersAcc st)") auto
      from assms have "length (styleBuilder (buildersAcc st))
                         = length (endpointBuilder (buildersAcc st))"
        by (simp add: interpInv_def)
      from emitSegmentsFromPath_counts [OF e this] assms
      have "interpInv (st\<lparr>pathCountAcc := pathCountAcc st + 1,
                            maxHalfWidthAcc := max (maxHalfWidthAcc st) hw,
                            sourceSegmentCountAcc := sourceSegmentCountAcc st + emitted,
                            buildersAcc := b\<rparr>)"
        by (simp add: interpInv_def)
      then show ?thesis
        using OpConstructPath sp Some e
        by (simp add: interpretOperator_def Let_def hw_def)
    qed
  qed
qed (use assms in \<open>auto simp: interpretOperator_def interpInv_def Let_def
        split: list.splits option.splits\<close>)

lemma interpInv_final: "interpInv (interpretOperators mg pm ops)"
  unfolding interpretOperators_def
proof (rule foldl_invariant [where P = interpInv])
  show "interpInv \<lparr>stateStack = [], currentState = createDefaultState pm, pathCountAcc = 0,
        sourceSegmentCountAcc = 0, maxHalfWidthAcc = 0,
        buildersAcc = \<lparr>endpointBuilder = [], styleBuilder = [], boundsAcc = None\<rparr>\<rparr>"
    by (simp add: interpInv_def)
next
  fix s x
  assume "interpInv s"
  then show "interpInv (interpretOperator mg s x)" by (rule interpInv_step)
qed

lemma passesFilters_alt:
  "passesFilters es ss i \<longleftrightarrow>
     styleAlpha (ss ! i) > ALPHA_INVISIBLE_EPSILON \<and> squaredLength (es ! i) \<ge> 1 / 10 ^ 10"
  by (cases "es ! i"; cases "ss ! i") (simp add: passesFilters_def styleAlpha_def squaredLength_def)

lemma cull_empty:
  "cullInvisibleSegments [] ss =
     \<lparr>cullSegmentCount = 0, cullEndpoints = [], cullStyles = [],
      cullBounds = \<lparr>minX = 0, minY = 0, maxX = 0, maxY = 0\<rparr>, cullMaxHalfWidth = 0,
      cullDiscardedTransparentCount = 0, cullDiscardedDegenerateCount = 0,
      cullDiscardedDuplicateCount = 0, cullDiscardedContainedCount = 0\<rparr>"
  by (simp add: cullInvisibleSegments_def visibleIndices_def classifyAll_def cullGroups_def)

lemma merged_lengths:
  "length (mergedStylesOf mg pm ops) = length (mergedEndpointsOf mg pm ops)"
  "length (mergedEndpointsOf mg pm ops) \<le> sourceSegmentCountAcc (interpretOperators mg pm ops)"
  using interpInv_final [of mg pm ops]
  by (simp_all add: interpInv_def mergedEndpointsOf_def mergedStylesOf_def)

text \<open>With culling enabled every branch of the scene assembly reports the culler's result.\<close>

lemma extract_cull_enabled:
  fixes pv pm ops mg
  defines "s \<equiv> extractFirstPageVectors pv pm ops mg True"
    and "r \<equiv> cullInvisibleSegments (mergedEndpointsOf mg pm ops) (mergedStylesOf mg pm ops)"
  shows "segmentCount s = cullSegmentCount r"
    and "endpoints s = cullEndpoints r"
    and "styles s = cullStyles r"
    and "discardedTransparentCount s = cullDiscardedTransparentCount r"
    and "discardedDegenerateCount s = cullDiscardedDegenerateCount r"
    and "discardedDuplicateCount s = cullDiscardedDuplicateCount r"
    and "discardedContainedCount s = cullDiscardedContainedCount r"
proof -
  obtain v0 v1 v2 v3 where pv: "pv = (v0, v1, v2, v3)" by (cases pv) auto
  have z: "cullSegmentCount r = 0 \<Longrightarrow> cullEndpoints r = [] \<and> cullStyles r = []"
    unfolding r_def cull_fields by simp
  show "segmentCount s = cullSegmentCount r"
    and "endpoints s = cullEndpoints r"
    and "styles s = cullStyles r"
    and "discardedTransparentCount s = cullDiscardedTransparentCount r"
    and "discardedDegenerateCount s = cullDiscardedDegenerateCount r"
    and "discardedDuplicateCount s = cullDiscardedDuplicateCount r"
    and "discardedContainedCount s = cullDiscardedContainedCount r"
    using z
    unfolding s_def r_def extractFirstPageVectors_def pv mergedEndpointsOf_def mergedStylesOf_def
    by (simp_all add: Let_def cull_empty)
qed

lemma extract_common:
  "mergedSegmentCount (extractFirstPageVectors pv pm ops mg cull)
     = length (mergedEndpointsOf mg pm ops)"
  "sourceSegmentCount (extractFirstPageVectors pv pm ops mg cull)
     = sourceSegmentCountAcc (interpretOperators mg pm ops)"
  "operatorCount (extractFirstPageVectors pv pm ops mg cull) = length ops"
  "pathCount (extractFirstPageVectors pv pm ops mg cull)
     = pathCountAcc (interpretOperators mg pm ops)"
  by (cases pv; simp add: extractFirstPageVectors_def mergedEndpointsOf_def Let_def)+

lemma cull_counts_partition_aux:
  "discardedTransparentCount (extractFirstPageVectors pv pm ops mg True)
   + discardedDegenerateCount (extractFirstPageVectors pv pm ops mg True)
   + discardedDuplicateCount (extractFirstPageVectors pv pm ops mg True)
   + discardedContainedCount (extractFirstPageVectors pv pm ops mg True)
   + segmentCount (extractFirstPageVectors pv pm ops mg True)
     = mergedSegmentCount (extractFirstPageVectors pv pm ops mg True)"
  unfolding extract_cull_enabled extract_common by (rule cull_partition)

text \<open>
  Claim C1.  For every scene produced by \<open>extractFirstPageVectors\<close> with invisible
  culling enabled, the four discarded tallies and the surviving count add up to
  \<open>mergedSegmentCount\<close>, and
  \<open>segmentCount \<le> mergedSegmentCount \<le> sourceSegmentCount\<close>.
\<close>

theorem cull_counts_partition:
  "discardedTransparentCount (extractFirstPageVectors pv pm ops mg True)
   + discardedDegenerateCount (extractFirstPageVectors pv pm ops mg True)
   + discardedDuplicateCount (extractFirstPageVectors pv pm ops mg True)
   + discardedContainedCount (extractFirstPageVectors pv pm ops mg True)
   + segmentCount (extractFirstPageVectors pv pm ops mg True)
     = mergedSegmentCount (extractFirstPageVectors pv pm ops mg True)
   \<and> segmentCount (extractFirstPageVectors pv pm ops mg True)
       \<le> mergedSegmentCount (extractFirstPageVectors pv pm ops mg True)
   \<and> mergedSegmentCount (extractFirstPageVectors pv pm ops mg True)
       \<le> sourceSegmentCount (extractFirstPageVectors pv pm ops mg True)"
proof -
  let ?s = "extractFirstPageVectors pv pm ops mg True"
  have p: "discardedTransparentCount ?s + discardedDegenerateCount ?s
           + discardedDuplicateCount ?s + discardedContainedCount ?s + segmentCount ?s
           = mergedSegmentCount ?s"
    by (rule cull_counts_partition_aux)
  have q: "mergedSegmentCount ?s \<le> sourceSegmentCount ?s"
    unfolding extract_common by (rule merged_lengths)
  from p q show ?thesis by simp
qed

lemma zip_map_nth:
  "zip (map (\<lambda>i. es ! i) idx) (map (\<lambda>i. ss ! i) idx) = map (\<lambda>i. (es ! i, ss ! i)) idx"
  by (induction idx) auto

lemma zip_as_map_upt:
  assumes "length ss = length es"
  shows "zip es ss = map (\<lambda>i. (es ! i, ss ! i)) [0..<length es]"
  using assms by (intro nth_equalityI) auto

lemma cull_zip_subseq:
  assumes "length ss = length es"
  shows "subseq (zip (cullEndpoints (cullInvisibleSegments es ss))
                     (cullStyles (cullInvisibleSegments es ss)))
                (zip es ss)"
proof -
  have "subseq (visibleIndices es ss) [0..<length es]"
    by (simp add: visibleIndices_def Let_def)
  then have "subseq (map (\<lambda>i. (es ! i, ss ! i)) (visibleIndices es ss))
                    (map (\<lambda>i. (es ! i, ss ! i)) [0..<length es])"
    by (rule subseq_map)
  then show ?thesis
    unfolding cull_fields zip_map_nth zip_as_map_upt [OF assms] .
qed

lemma cull_zip_passes:
  assumes "p \<in> set (zip (cullEndpoints (cullInvisibleSegments es ss))
                        (cullStyles (cullInvisibleSegments es ss)))"
  shows "styleAlpha (snd p) > ALPHA_INVISIBLE_EPSILON \<and> squaredLength (fst p) \<ge> 1 / 10 ^ 10"
proof -
  from assms obtain i where i: "i \<in> set (visibleIndices es ss)" and p: "p = (es ! i, ss ! i)"
    unfolding cull_fields zip_map_nth by auto
  from visibleIndices_passes [OF i] show ?thesis
    by (simp add: passesFilters_alt p)
qed

lemma extract_cull_disabled:
  fixes pv pm ops mg
  defines "s \<equiv> extractFirstPageVectors pv pm ops mg False"
  shows "endpoints s = mergedEndpointsOf mg pm ops"
    and "styles s = mergedStylesOf mg pm ops"
    and "segmentCount s = length (mergedEndpointsOf mg pm ops)"
    and "discardedTransparentCount s = 0"
    and "discardedDegenerateCount s = 0"
    and "discardedDuplicateCount s = 0"
    and "discardedContainedCount s = 0"
proof -
  obtain v0 v1 v2 v3 where pv: "pv = (v0, v1, v2, v3)" by (cases pv) auto
  have "mergedEndpointsOf mg pm ops = [] \<Longrightarrow> mergedStylesOf mg pm ops = []"
    using merged_lengths(1) [of mg pm ops] by simp
  then show "endpoints s = mergedEndpointsOf mg pm ops"
    and "styles s = mergedStylesOf mg pm ops"
    and "segmentCount s = length (mergedEndpointsOf mg pm ops)"
    and "discardedTransparentCount s = 0"
    and "discardedDegenerateCount s = 0"
    and "discardedDuplicateCount s = 0"
    and "discardedContainedCount s = 0"
    unfolding s_def extractFirstPageVectors_def pv mergedEndpointsOf_def mergedStylesOf_def
    by (simp_all add: Let_def)
qed

text \<open>
  Claim C5.  With culling enabled every surviving stroke has alpha above \<open>10\<^sup>-\<^sup>3\<close> and
  squared length at least \<open>10\<^sup>-\<^sup>1\<^sup>0\<close>, and the survivors (endpoints paired with styles)
  are a subsequence of the merged input, so their relative order is the input order.
  With culling disabled the merged arrays are returned unchanged and the four
  discarded counters are zero.
\<close>

theorem cull_survivors_ordered:
  "(\<forall>p \<in> set (zip (endpoints (extractFirstPageVectors pv pm ops mg True))
                     (styles (extractFirstPageVectors pv pm ops mg True))).
       styleAlpha (snd p) > 1 / 10 ^ 3 \<and> squaredLength (fst p) \<ge> 1 / 10 ^ 10)
   \<and> subseq (zip (endpoints (extractFirstPageVectors pv pm ops mg True))
                 (styles (extractFirstPageVectors pv pm ops mg True)))
             (zip (mergedEndpointsOf mg pm ops) (mergedStylesOf mg pm ops))
   \<and> endpoints (extractFirstPageVectors pv pm ops mg False) = mergedEndpointsOf mg pm ops
   \<and> styles (extractFirstPageVectors pv pm ops mg False) = mergedStylesOf mg pm ops
   \<and> discardedTransparentCount (extractFirstPageVectors pv pm ops mg False) = 0
   \<and> discardedDegenerateCount (extractFirstPageVectors pv pm ops mg False) = 0
   \<and> discardedDuplicateCount (extractFirstPageVectors pv pm ops mg False) = 0
   \<and> discardedContainedCount (extractFirstPageVectors pv pm ops mg False) = 0"
proof -
  have a: "\<forall>p \<in> set (zip (endpoints (extractFirstPageVectors pv pm ops mg True))
                     (styles (extractFirstPageVectors pv pm ops mg True))).
       styleAlpha (snd p) > 1 / 10 ^ 3 \<and> squaredLength (fst p) \<ge> 1 / 10 ^ 10"
    unfolding extract_cull_enabled
    using cull_zip_passes [of _ "mergedEndpointsOf mg pm ops" "mergedStylesOf mg pm ops"]
    by (simp add: ALPHA_INVISIBLE_EPSILON_def)
  have b: "subseq (zip (endpoints (extractFirstPageVectors pv pm ops mg True))
                 (styles (extractFirstPageVectors pv pm ops mg True)))
             (zip (mergedEndpointsOf mg pm ops) (mergedStylesOf mg pm ops))"
    unfolding extract_cull_enabled
    by (rule cull_zip_subseq) (rule merged_lengths)
  from a b show ?thesis
    by (simp add: extract_cull_disabled)
qed

text \<open>
  Claim C10.  Whenever the extracted scene has no surviving stroke, its bounds are the
  page bounds, its \<open>maxHalfWidth\<close> is 0 and its endpoint and style arrays are empty,
  while \<open>sourceSegmentCount\<close>, \<open>mergedSegmentCount\<close>, \<open>operatorCount\<close> and
  \<open>pathCount\<close> report what the operator loop counted and the discarded tallies
  account for every merged segment.
\<close>

theorem empty_scene_well_formed:
  "segmentCount (extractFirstPageVectors pv pm ops mg cull) = 0 \<longrightarrow>
     bounds (extractFirstPageVectors pv pm ops mg cull)
       = pageBounds (extractFirstPageVectors pv pm ops mg cull)
     \<and> maxHalfWidth (extractFirstPageVectors pv pm ops mg cull) = 0
     \<and> endpoints (extractFirstPageVectors pv pm ops mg cull) = []
     \<and> styles (extractFirstPageVectors pv pm ops mg cull) = []
     \<and> sourceSegmentCount (extractFirstPageVectors pv pm ops mg cull)
         = sourceSegmentCountAcc (interpretOperators mg pm ops)
     \<and> mergedSegmentCount (extractFirstPageVectors pv pm ops mg cull)
         = length (mergedEndpointsOf mg pm ops)
     \<and> operatorCount (extractFirstPageVectors pv pm ops mg cull) = length ops
     \<and> pathCount (extractFirstPageVectors pv pm ops mg cull)
         = pathCountAcc (interpretOperators mg pm ops)
     \<and> discardedTransparentCount (extractFirstPageVectors pv pm ops mg cull)
       + discardedDegenerateCount (extractFirstPageVectors pv pm ops mg cull)
       + discardedDuplicateCount (extractFirstPageVectors pv pm ops mg cull)
       + discardedContainedCount (extractFirstPageVectors pv pm ops mg cull)
         = mergedSegmentCount (extractFirstPageVectors pv pm ops mg cull)"
proof
  let ?s = "extractFirstPageVectors pv pm ops mg cull"
  assume z: "segmentCount ?s = 0"
  obtain v0 v1 v2 v3 where pv: "pv = (v0, v1, v2, v3)" by (cases pv) auto
  define culled where
    "culled = cullInvisibleSegments (mergedEndpointsOf mg pm ops) (mergedStylesOf mg pm ops)"
  have geo: "bounds ?s = pageBounds ?s \<and> maxHalfWidth ?s = 0 \<and> endpoints ?s = []
             \<and> styles ?s = []"
  proof (cases "length (mergedEndpointsOf mg pm ops) = 0")
    case True
    then show ?thesis
      unfolding extractFirstPageVectors_def pv mergedEndpointsOf_def
      by (simp add: Let_def)
  next
    case ne: False
    show ?thesis
    proof (cases cull)
      case False
      with z ne show ?thesis by (simp add: extract_cull_disabled)
    next
      case True
      with z have "cullSegmentCount culled = 0"
        by (simp add: extract_cull_enabled culled_def)
      with ne True show ?thesis
        unfolding extractFirstPageVectors_def pv mergedEndpointsOf_def mergedStylesOf_def
          culled_def
        by (simp add: Let_def)
    qed
  qed
  have tally: "discardedTransparentCount ?s + discardedDegenerateCount ?s
       + discardedDuplicateCount ?s + discardedContainedCount ?s = mergedSegmentCount ?s"
  proof (cases cull)
    case True
    with z cull_counts_partition_aux [of pv pm ops mg] show ?thesis by simp
  next
    case False
    with z show ?thesis
      by (simp add: extract_cull_disabled extract_common)
  qed
  from geo tally show "bounds ?s = pageBounds ?s
     \<and> maxHalfWidth ?s = 0 \<and> endpoints ?s = [] \<and> styles ?s = []
     \<and> sourceSegmentCount ?s = sourceSegmentCountAcc (interpretOperators mg pm ops)
     \<and> mergedSegmentCount ?s = length (mergedEndpointsOf mg pm ops)
     \<and> operatorCount ?s = length ops
     \<and> pathCount ?s = pathCountAcc (interpretOperators mg pm ops)
     \<and> discardedTransparentCount ?s + discardedDegenerateCount ?s
       + discardedDuplicateCount ?s + discardedContainedCount ?s = mergedSegmentCount ?s"
    by (simp add: extract_common)
qed

subsection \<open>Worked scenes\<close>

lemma sqrt_256: "sqrt 256 = 16"
  by (rule real_sqrt_unique) simp_all

lemmas gs_eval = applyGraphicsStateEntries_def applyGraphicsStateEntry_def

lemma demo_merged:
  "mergedEndpointsOf True IDENTITY_MATRIX cullDemoOps
     = [(0, 0, 10, 0), (0, 0, 10, 0), (0, 5, 10, 5), (0, 9, 8, 9)]"
  "mergedStylesOf True IDENTITY_MATRIX cullDemoOps
     = [(1 / 2, 0, 1, 0), (1 / 2, 0, 1, 0), (1 / 2, 0, 1 / 2000, 0), (1 / 2, 0, 1, 0)]"
  "sourceSegmentCountAcc (interpretOperators True IDENTITY_MATRIX cullDemoOps) = 5"
  by (simp_all add: mergedEndpointsOf_def mergedStylesOf_def cullDemoOps_def interp_eval gs_eval
      sqrt_256 crossDistanceSq_def SEGMENT_JOIN_EPSILON_def COLLINEAR_DOT_THRESHOLD_def
      COLLINEAR_PERP_EPSILON_def)

lemma demo_cull:
  "cullInvisibleSegments [(0, 0, 10, 0), (0, 0, 10, 0), (0, 5, 10, 5), (0, 9, 8, 9)]
     [(1 / 2, 0, 1, 0), (1 / 2, 0, 1, 0), (1 / 2, 0, 1 / 2000, 0), (1 / 2, 0, 1, 0)]
   = \<lparr>cullSegmentCount = 2, cullEndpoints = [(0, 0, 10, 0), (0, 9, 8, 9)],
      cullStyles = [(1 / 2, 0, 1, 0), (1 / 2, 0, 1, 0)],
      cullBounds = \<lparr>minX = 0, minY = 0, maxX = 10, maxY = 9\<rparr>,
      cullMaxHalfWidth = 1 / 2,
      cullDiscardedTransparentCount = 1, cullDiscardedDegenerateCount = 0,
      cullDiscardedDuplicateCount = 1, cullDiscardedContainedCount = 0\<rparr>"
  by (simp add: cull_eval DUPLICATE_STYLE_SCALE_def DUPLICATE_POSITION_SCALE_def
      COVER_DIRECTION_SCALE_def COVER_OFFSET_SCALE_def compareCandidates_def
      COVER_HALF_WIDTH_EPSILON_def COVER_INTERVAL_EPSILON_def OPAQUE_ALPHA_EPSILON_def
      upt_rec nth_Cons')

lemma demo_scene:
  "segmentCount (extractFirstPageVectors (0, 0, 100, 100) IDENTITY_MATRIX cullDemoOps True True) = 2"
  "endpoints (extractFirstPageVectors (0, 0, 100, 100) IDENTITY_MATRIX cullDemoOps True True)
     = [(0, 0, 10, 0), (0, 9, 8, 9)]"
  "styles (extractFirstPageVectors (0, 0, 100, 100) IDENTITY_MATRIX cullDemoOps True True)
     = [(1 / 2, 0, 1, 0), (1 / 2, 0, 1, 0)]"
  "discardedTransparentCount
     (extractFirstPageVectors (0, 0, 100, 100) IDENTITY_MATRIX cullDemoOps True True) = 1"
  "discardedDegenerateCount
     (extractFirstPageVectors (0, 0, 100, 100) IDENTITY_MATRIX cullDemoOps True True) = 0"
  "discardedDuplicateCount
     (extractFirstPageVectors (0, 0, 100, 100) IDENTITY_MATRIX cullDemoOps True True) = 1"
  "discardedContainedCount
     (extractFirstPageVectors (0, 0, 100, 100) IDENTITY_MATRIX cullDemoOps True True) = 0"
  "mergedSegmentCount
     (extractFirstPageVectors (0, 0, 100, 100) IDENTITY_MATRIX cullDemoOps True True) = 4"
  "sourceSegmentCount
     (extractFirstPageVectors (0, 0, 100, 100) IDENTITY_MATRIX cullDemoOps True True) = 5"
  by (simp_all add: extract_cull_enabled extract_common demo_merged demo_cull)

theorem cull_counts_partition_witness:
  "discardedTransparentCount
     (extractFirstPageVectors (0, 0, 100, 100) IDENTITY_MATRIX cullDemoOps True True) = 1
   \<and> discardedDegenerateCount
     (extractFirstPageVectors (0, 0, 100, 100) IDENTITY_MATRIX cullDemoOps True True) = 0
   \<and> discardedDuplicateCount
     (extractFirstPageVectors (0, 0, 100, 100) IDENTITY_MATRIX cullDemoOps True True) = 1
   \<and> discardedContainedCount
     (extractFirstPageVectors (0, 0, 100, 100) IDENTITY_MATRIX cullDemoOps True True) = 0
   \<and> segmentCount
     (extractFirstPageVectors (0, 0, 100, 100) IDENTITY_MATRIX cullDemoOps True True) = 2
   \<and> mergedSegmentCount
     (extractFirstPageVectors (0, 0, 100, 100) IDENTITY_MATRIX cullDemoOps True True) = 4
   \<and> sourceSegmentCount
     (extractFirstPageVectors (0, 0, 100, 100) IDENTITY_MATRIX cullDemoOps True True) = 5
   \<and> discardedTransparentCount
       (extractFirstPageVectors (0, 0, 100, 100) IDENTITY_MATRIX cullDemoOps True True)
     + discardedDegenerateCount
       (extractFirstPageVectors (0, 0, 100, 100) IDENTITY_MATRIX cullDemoOps True True)
     + discardedDuplicateCount
       (extractFirstPageVectors (0, 0, 100, 100) IDENTITY_MATRIX cullDemoOps True True)
     + discardedContainedCount
       (extractFirstPageVectors (0, 0, 100, 100) IDENTITY_MATRIX cullDemoOps True True)
     + segmentCount
       (extractFirstPageVectors (0, 0, 100, 100) IDENTITY_MATRIX cullDemoOps True True)
     = mergedSegmentCount
       (extractFirstPageVectors (0, 0, 100, 100) IDENTITY_MATRIX cullDemoOps True True)"
  using cull_counts_partition [of "(0, 0, 100, 100)" IDENTITY_MATRIX cullDemoOps True]
    demo_scene
  by simp

theorem cull_survivors_ordered_witness:
  "((0, 9, 8, 9), (1 / 2, 0, 1, 0))
     \<in> set (zip (endpoints (extractFirstPageVectors (0, 0, 100, 100) IDENTITY_MATRIX
                               cullDemoOps True True))
                 (styles (extractFirstPageVectors (0, 0, 100, 100) IDENTITY_MATRIX
                            cullDemoOps True True)))
   \<and> styleAlpha (1 / 2, 0, 1, 0) > 1 / 10 ^ 3
   \<and> squaredLength (0, 9, 8, 9) \<ge> 1 / 10 ^ 10
   \<and> subseq [((0, 0, 10, 0), (1 / 2, 0, 1, 0)), ((0, 9, 8, 9), (1 / 2, 0, 1, 0))]
        [((0, 0, 10, 0), (1 / 2, 0, 1, 0)), ((0, 0, 10, 0), (1 / 2, 0, 1, 0)),
         ((0, 5, 10, 5), (1 / 2, 0, 1 / 2000, 0)), ((0, 9, 8, 9), (1 / 2, 0, 1, 0))]
   \<and> endpoints (extractFirstPageVectors (0, 0, 100, 100) IDENTITY_MATRIX cullDemoOps True False)
        = [(0, 0, 10, 0), (0, 0, 10, 0), (0, 5, 10, 5), (0, 9, 8, 9)]
   \<and> discardedTransparentCount
        (extractFirstPageVectors (0, 0, 100, 100) IDENTITY_MATRIX cullDemoOps True False) = 0"
proof -
  note t = cull_survivors_ordered [of "(0, 0, 100, 100)" IDENTITY_MATRIX cullDemoOps True]
  have m: "((0, 9, 8, 9), (1 / 2, 0, 1, 0))
     \<in> set (zip (endpoints (extractFirstPageVectors (0, 0, 100, 100) IDENTITY_MATRIX
                               cullDemoOps True True))
                 (styles (extractFirstPageVectors (0, 0, 100, 100) IDENTITY_MATRIX
                            cullDemoOps True True)))"
    by (simp add: demo_scene)
  let ?p = "((0, 9, 8, 9), (1 / 2, 0, 1, 0)) :: quad \<times> quad"
  from t m have "styleAlpha (snd ?p) > 1 / 10 ^ 3 \<and> squaredLength (fst ?p) \<ge> 1 / 10 ^ 10"
    by blast
  then have a: "styleAlpha (1 / 2, 0, 1, 0) > 1 / 10 ^ 3
     \<and> squaredLength (0, 9, 8, 9) \<ge> 1 / 10 ^ 10"
    by simp
  from t have b: "subseq [((0, 0, 10, 0), (1 / 2, 0, 1, 0)), ((0, 9, 8, 9), (1 / 2, 0, 1, 0))]
        [((0, 0, 10, 0), (1 / 2, 0, 1, 0)), ((0, 0, 10, 0), (1 / 2, 0, 1, 0)),
         ((0, 5, 10, 5), (1 / 2, 0, 1 / 2000, 0)), ((0::real, 9::real, 8::real, 9::real), (1 / 2 :: real, 0::real, 1::real, 0::real))]"
    by (simp add: demo_scene demo_merged)
  from t have c: "endpoints (extractFirstPageVectors (0, 0, 100, 100) IDENTITY_MATRIX cullDemoOps True False)
        = [(0, 0, 10, 0), (0, 0, 10, 0), (0, 5, 10, 5), (0, 9, 8, 9)]
     \<and> discardedTransparentCount
        (extractFirstPageVectors (0, 0, 100, 100) IDENTITY_MATRIX cullDemoOps True False) = 0"
    by (simp add: demo_merged)
  from m a b c show ?thesis by simp
qed

lemma transparent_merged:
  "mergedEndpointsOf True IDENTITY_MATRIX transparentOps = [(0, 5, 10, 5)]"
  "mergedStylesOf True IDENTITY_MATRIX transparentOps = [(1 / 2, 0, 1 / 2000, 0)]"
  "sourceSegmentCountAcc (interpretOperators True IDENTITY_MATRIX transparentOps) = 1"
  "pathCountAcc (interpretOperators True IDENTITY_MATRIX transparentOps) = 1"
  by (simp_all add: mergedEndpointsOf_def mergedStylesOf_def transparentOps_def interp_eval
      gs_eval)

lemma transparent_cull:
  "cullInvisibleSegments [(0, 5, 10, 5)] [(1 / 2, 0, 1 / 2000, 0)]
   = \<lparr>cullSegmentCount = 0, cullEndpoints = [], cullStyles = [],
      cullBounds = \<lparr>minX = 0, minY = 0, maxX = 0, maxY = 0\<rparr>, cullMaxHalfWidth = 0,
      cullDiscardedTransparentCount = 1, cullDiscardedDegenerateCount = 0,
      cullDiscardedDuplicateCount = 0, cullDiscardedContainedCount = 0\<rparr>"
  by (simp add: cull_eval cullGroups_def)

theorem empty_scene_well_formed_witness:
  "segmentCount (extractFirstPageVectors (0, 0, 100, 50) IDENTITY_MATRIX [] True True) = 0
   \<and> bounds (extractFirstPageVectors (0, 0, 100, 50) IDENTITY_MATRIX [] True True)
       = \<lparr>minX = 0, minY = 0, maxX = 100, maxY = 50\<rparr>
   \<and> maxHalfWidth (extractFirstPageVectors (0, 0, 100, 50) IDENTITY_MATRIX [] True True) = 0
   \<and> segmentCount
        (extractFirstPageVectors (0, 0, 100, 50) IDENTITY_MATRIX transparentOps True True) = 0
   \<and> bounds (extractFirstPageVectors (0, 0, 100, 50) IDENTITY_MATRIX transparentOps True True)
       = \<lparr>minX = 0, minY = 0, maxX = 100, maxY = 50\<rparr>
   \<and> maxHalfWidth
        (extractFirstPageVectors (0, 0, 100, 50) IDENTITY_MATRIX transparentOps True True) = 0
   \<and> endpoints
        (extractFirstPageVectors (0, 0, 100, 50) IDENTITY_MATRIX transparentOps True True) = []
   \<and> mergedSegmentCount
        (extractFirstPageVectors (0, 0, 100, 50) IDENTITY_MATRIX transparentOps True True) = 1
   \<and> sourceSegmentCount
        (extractFirstPageVectors (0, 0, 100, 50) IDENTITY_MATRIX transparentOps True True) = 1
   \<and> operatorCount
        (extractFirstPageVectors (0, 0, 100, 50) IDENTITY_MATRIX transparentOps True True) = 2
   \<and> pathCount
        (extractFirstPageVectors (0, 0, 100, 50) IDENTITY_MATRIX transparentOps True True) = 1
   \<and> discardedTransparentCount
        (extractFirstPageVectors (0, 0, 100, 50) IDENTITY_MATRIX transparentOps True True) = 1"
proof -
  have pb: "pageBounds (extractFirstPageVectors (0, 0, 100, 50) IDENTITY_MATRIX ops True True)
       = \<lparr>minX = 0, minY = 0, maxX = 100, maxY = 50\<rparr>" for ops
    by (simp add: extractFirstPageVectors_def Let_def transformBounds_def applyMatrix_def
        IDENTITY_MATRIX_def)
  have z1: "segmentCount (extractFirstPageVectors (0, 0, 100, 50) IDENTITY_MATRIX [] True True) = 0"
    by (simp add: extractFirstPageVectors_def Let_def interpretOperators_def)
  have z2: "segmentCount
        (extractFirstPageVectors (0, 0, 100, 50) IDENTITY_MATRIX transparentOps True True) = 0"
    by (simp add: extract_cull_enabled transparent_merged transparent_cull)
  have d: "discardedTransparentCount
        (extractFirstPageVectors (0, 0, 100, 50) IDENTITY_MATRIX transparentOps True True) = 1"
    by (simp add: extract_cull_enabled transparent_merged transparent_cull)
  note t1 = empty_scene_well_formed [of "(0, 0, 100, 50)" IDENTITY_MATRIX "[]" True True]
  note t2 = empty_scene_well_formed [of "(0, 0, 100, 50)" IDENTITY_MATRIX transparentOps True True]
  have len: "length transparentOps = 2" by (simp add: transparentOps_def)
  from t1 z1 have a1:
    "bounds (extractFirstPageVectors (0, 0, 100, 50) IDENTITY_MATRIX [] True True)
       = pageBounds (extractFirstPageVectors (0, 0, 100, 50) IDENTITY_MATRIX [] True True)"
    "maxHalfWidth (extractFirstPageVectors (0, 0, 100, 50) IDENTITY_MATRIX [] True True) = 0"
    by blast+
  from t2 z2 have a2:
    "bounds (extractFirstPageVectors (0, 0, 100, 50) IDENTITY_MATRIX transparentOps True True)
       = pageBounds
           (extractFirstPageVectors (0, 0, 100, 50) IDENTITY_MATRIX transparentOps True True)"
    "maxHalfWidth
       (extractFirstPageVectors (0, 0, 100, 50) IDENTITY_MATRIX transparentOps True True) = 0"
    "endpoints
       (extractFirstPageVectors (0, 0, 100, 50) IDENTITY_MATRIX transparentOps True True) = []"
    "mergedSegmentCount
       (extractFirstPageVectors (0, 0, 100, 50) IDENTITY_MATRIX transparentOps True True)
       = length (mergedEndpointsOf True IDENTITY_MATRIX transparentOps)"
    "sourceSegmentCount
       (extractFirstPageVectors (0, 0, 100, 50) IDENTITY_MATRIX transparentOps True True)
       = sourceSegmentCountAcc (interpretOperators True IDENTITY_MATRIX transparentOps)"
    "operatorCount
       (extractFirstPageVectors (0, 0, 100, 50) IDENTITY_MATRIX transparentOps True True)
       = length transparentOps"
    "pathCount
       (extractFirstPageVectors (0, 0, 100, 50) IDENTITY_MATRIX transparentOps True True)
       = pathCountAcc (interpretOperators True IDENTITY_MATRIX transparentOps)"
    by blast+
  show ?thesis
    unfolding a1 a2 pb transparent_merged len using z1 z2 d by simp
qed

subsection \<open>Running the culler twice\<close>

lemmas cull_eval_full = cull_eval DUPLICATE_STYLE_SCALE_def DUPLICATE_POSITION_SCALE_def
      COVER_DIRECTION_SCALE_def COVER_OFFSET_SCALE_def compareCandidates_def
      COVER_HALF_WIDTH_EPSILON_def COVER_INTERVAL_EPSILON_def OPAQUE_ALPHA_EPSILON_def
      upt_rec nth_Cons'

lemma near_width_run1:
  "cullInvisibleSegments nearWidthEndpoints nearWidthStyles
   = \<lparr>cullSegmentCount = 2,
      cullEndpoints = [(0, 0, 10, 0), (1 / 50, 0, 501 / 50, 0)],
      cullStyles = [(1, 0, 1, 0), (20003 / 20000, 0, 1, 0)],
      cullBounds = \<lparr>minX = 0, minY = 0, maxX = 501 / 50, maxY = 0\<rparr>,
      cullMaxHalfWidth = 20003 / 20000,
      cullDiscardedTransparentCount = 0, cullDiscardedDegenerateCount = 0,
      cullDiscardedDuplicateCount = 0, cullDiscardedContainedCount = 1\<rparr>"
  by (simp add: nearWidthEndpoints_def nearWidthStyles_def cull_eval_full)

lemma near_width_run2:
  "cullInvisibleSegments [(0, 0, 10, 0), (1 / 50, 0, 501 / 50, 0)]
      [(1, 0, 1, 0), (20003 / 20000, 0, 1, 0)]
   = \<lparr>cullSegmentCount = 1,
      cullEndpoints = [(1 / 50, 0, 501 / 50, 0)],
      cullStyles = [(20003 / 20000, 0, 1, 0)],
      cullBounds = \<lparr>minX = 1 / 50, minY = 0, maxX = 501 / 50, maxY = 0\<rparr>,
      cullMaxHalfWidth = 20003 / 20000,
      cullDiscardedTransparentCount = 0, cullDiscardedDegenerateCount = 0,
      cullDiscardedDuplicateCount = 0, cullDiscardedContainedCount = 1\<rparr>"
  by (simp add: cull_eval_full)

lemma passesFilters_transfer:
  "es' ! i = es ! j \<Longrightarrow> ss' ! i = ss ! j \<Longrightarrow> passesFilters es' ss' i = passesFilters es ss j"
  by (simp add: passesFilters_def)

lemma segmentDupKey_transfer:
  "es' ! i = es ! j \<Longrightarrow> ss' ! i = ss ! j \<Longrightarrow> segmentDupKey es' ss' i = segmentDupKey es ss j"
  by (simp add: segmentDupKey_def)

lemma classifySegment_kept:
  assumes "passesFilters es ss i" and "segmentDupKey es ss i \<notin> set (seenDuplicates st)"
  shows "transparentCount (classifySegment es ss st i) = transparentCount st
       \<and> degenerateCount (classifySegment es ss st i) = degenerateCount st
       \<and> duplicateCount (classifySegment es ss st i) = duplicateCount st
       \<and> seenDuplicates (classifySegment es ss st i)
           = seenDuplicates st @ [segmentDupKey es ss i]"
  using assms
  by (cases "es ! i"; cases "ss ! i")
     (simp add: classifySegment_def passesFilters_def segmentDupKey_def Let_def
        split: prod.splits)

lemma classifyAll_all_pass:
  assumes pass: "\<forall>i < length es. passesFilters es ss i"
    and dist: "distinct (map (segmentDupKey es ss) [0..<length es])"
  shows "transparentCount (classifyAll es ss) = 0
       \<and> degenerateCount (classifyAll es ss) = 0
       \<and> duplicateCount (classifyAll es ss) = 0"
proof -
  define P :: "nat \<Rightarrow> cullState \<Rightarrow> bool"
    where "P = (\<lambda>i st. transparentCount st = 0 \<and> degenerateCount st = 0
       \<and> duplicateCount st = 0 \<and> seenDuplicates st = map (segmentDupKey es ss) [0..<i])"
  have "P (length es) (classifyAll es ss)"
    unfolding classifyAll_def
  proof (rule foldl_upt_invariant [where P = P])
    show "P 0 \<lparr>keepMask = replicate (length es) False, seenDuplicates = [],
        coverageGroups = [], transparentCount = 0, degenerateCount = 0, duplicateCount = 0\<rparr>"
      by (simp add: P_def)
  next
    fix i st
    assume i: "i < length es" and p: "P i st"
    have "[0..<length es] = [0..<i] @ i # [Suc i..<length es]"
      using i by (metis le_add1 less_imp_add_positive upt_add_eq_append upt_conv_Cons zero_le)
    with dist have "segmentDupKey es ss i \<notin> set (map (segmentDupKey es ss) [0..<i])"
      by simp
    with p have "segmentDupKey es ss i \<notin> set (seenDuplicates st)" by (simp add: P_def)
    from classifySegment_kept [OF _ this, of ] pass i p
    show "P (Suc i) (classifySegment es ss st i)"
      by (simp add: P_def)
  qed
  then show ?thesis by (simp add: P_def)
qed

lemma visibleIndices_distinct_keys:
  "distinct (map (segmentDupKey es ss) (visibleIndices es ss))"
proof -
  let ?st = "classifyAll es ss"
  let ?k = "fst (cullGroups (coverageGroups ?st) (keepMask ?st, 0))"
  have len: "length (keepMask ?st) = length es"
    using classifyInv_final [of es ss] by (simp add: classifyInv_def)
  have "seenDuplicates ?st
          = map (segmentDupKey es ss) (filter (\<lambda>j. keepMask ?st ! j) [0..<length es])"
    and "distinct (seenDuplicates ?st)"
    using classifyInv_final [of es ss] unfolding classifyInv_def by blast+
  then have d: "distinct (map (segmentDupKey es ss)
                   (filter (\<lambda>j. keepMask ?st ! j) [0..<length es]))"
    by simp
  have "filter (\<lambda>i. ?k ! i) [0..<length es]
          = filter (\<lambda>i. ?k ! i) (filter (\<lambda>j. keepMask ?st ! j) [0..<length es])"
    unfolding filter_filter
    by (rule filter_cong) (use cull_stage2 [of es ss] len in \<open>auto simp: maskShrinks_def\<close>)
  then have "visibleIndices es ss
          = filter (\<lambda>i. ?k ! i) (filter (\<lambda>j. keepMask ?st ! j) [0..<length es])"
    by (simp add: visibleIndices_def Let_def)
  moreover from d have "distinct (map (segmentDupKey es ss)
       (filter (\<lambda>i. ?k ! i) (filter (\<lambda>j. keepMask ?st ! j) [0..<length es])))"
    by (rule distinct_map_filter)
  ultimately show ?thesis by (simp only:)
qed

lemma second_run_counters:
  fixes es ss
  defines "es1 \<equiv> cullEndpoints (cullInvisibleSegments es ss)"
    and "ss1 \<equiv> cullStyles (cullInvisibleSegments es ss)"
  shows "transparentCount (classifyAll es1 ss1) = 0
       \<and> degenerateCount (classifyAll es1 ss1) = 0
       \<and> duplicateCount (classifyAll es1 ss1) = 0"
proof (rule classifyAll_all_pass)
  let ?vis = "visibleIndices es ss"
  have e: "es1 = map (\<lambda>i. es ! i) ?vis" and s: "ss1 = map (\<lambda>i. ss ! i) ?vis"
    by (simp_all add: es1_def ss1_def cull_fields)
  have n: "length es1 = length ?vis" by (simp add: e)
  show "\<forall>i < length es1. passesFilters es1 ss1 i"
  proof (intro allI impI)
    fix i assume i: "i < length es1"
    then have "passesFilters es1 ss1 i = passesFilters es ss (?vis ! i)"
      by (intro passesFilters_transfer) (simp_all add: e s)
    moreover have "?vis ! i \<in> set ?vis" using i n by simp
    ultimately show "passesFilters es1 ss1 i"
      using visibleIndices_passes [of "?vis ! i" es ss] by simp
  qed
  have "map (segmentDupKey es1 ss1) [0..<length es1] = map (segmentDupKey es ss) ?vis"
  proof (rule nth_equalityI)
    show "length (map (segmentDupKey es1 ss1) [0..<length es1])
            = length (map (segmentDupKey es ss) ?vis)" by (simp add: n)
  next
    fix i assume "i < length (map (segmentDupKey es1 ss1) [0..<length es1])"
    then have i: "i < length ?vis" by (simp add: n)
    then have "segmentDupKey es1 ss1 i = segmentDupKey es ss (?vis ! i)"
      by (intro segmentDupKey_transfer) (simp_all add: e s)
    with i show "map (segmentDupKey es1 ss1) [0..<length es1] ! i
            = map (segmentDupKey es ss) ?vis ! i" by (simp add: n)
  qed
  with visibleIndices_distinct_keys [of es ss]
  show "distinct (map (segmentDupKey es1 ss1) [0..<length es1])" by simp
qed

lemma filter_full_length:
  "length (filter P xs) = length xs \<Longrightarrow> filter P xs = xs"
  by (metis filter_id_conv length_filter_less less_irrefl)

lemma cull_nothing_discarded:
  assumes len: "length ss = length es"
    and full: "cullSegmentCount (cullInvisibleSegments es ss) = length es"
  shows "cullEndpoints (cullInvisibleSegments es ss) = es
       \<and> cullStyles (cullInvisibleSegments es ss) = ss"
proof -
  have "visibleIndices es ss = filter (\<lambda>i.
          fst (cullGroups (coverageGroups (classifyAll es ss))
                 (keepMask (classifyAll es ss), 0)) ! i) [0..<length es]"
    by (simp add: visibleIndices_def Let_def)
  moreover from full have "length (visibleIndices es ss) = length [0..<length es]"
    by (simp add: cull_fields)
  ultimately have v: "visibleIndices es ss = [0..<length es]"
    using filter_full_length by metis
  show ?thesis
    unfolding cull_fields v using len map_nth [of es] map_nth [of ss] by simp
qed

text \<open>
  Claim C4 (as amended).  Applying \<open>cullInvisibleSegments\<close> to its own surviving
  output discards nothing as transparent, degenerate or duplicate, and never reorders:
  the second output is a subsequence of the first, and its count plus its contained
  counter is the first count.  When the containment stage of the second run discards
  nothing, the second output is identical to the first (endpoints, styles, count and
  order).
\<close>

theorem cull_second_run:
  "cullDiscardedTransparentCount
     (cullInvisibleSegments (cullEndpoints (cullInvisibleSegments es ss))
        (cullStyles (cullInvisibleSegments es ss))) = 0
   \<and> cullDiscardedDegenerateCount
     (cullInvisibleSegments (cullEndpoints (cullInvisibleSegments es ss))
        (cullStyles (cullInvisibleSegments es ss))) = 0
   \<and> cullDiscardedDuplicateCount
     (cullInvisibleSegments (cullEndpoints (cullInvisibleSegments es ss))
        (cullStyles (cullInvisibleSegments es ss))) = 0
   \<and> cullSegmentCount
       (cullInvisibleSegments (cullEndpoints (cullInvisibleSegments es ss))
          (cullStyles (cullInvisibleSegments es ss)))
     + cullDiscardedContainedCount
       (cullInvisibleSegments (cullEndpoints (cullInvisibleSegments es ss))
          (cullStyles (cullInvisibleSegments es ss)))
     = cullSegmentCount (cullInvisibleSegments es ss)
   \<and> subseq
       (zip (cullEndpoints
               (cullInvisibleSegments (cullEndpoints (cullInvisibleSegments es ss))
                  (cullStyles (cullInvisibleSegments es ss))))
            (cullStyles
               (cullInvisibleSegments (cullEndpoints (cullInvisibleSegments es ss))
                  (cullStyles (cullInvisibleSegments es ss)))))
       (zip (cullEndpoints (cullInvisibleSegments es ss))
            (cullStyles (cullInvisibleSegments es ss)))
   \<and> (cullDiscardedContainedCount
        (cullInvisibleSegments (cullEndpoints (cullInvisibleSegments es ss))
           (cullStyles (cullInvisibleSegments es ss))) = 0
      \<longrightarrow> cullEndpoints
            (cullInvisibleSegments (cullEndpoints (cullInvisibleSegments es ss))
               (cullStyles (cullInvisibleSegments es ss)))
          = cullEndpoints (cullInvisibleSegments es ss)
        \<and> cullStyles
            (cullInvisibleSegments (cullEndpoints (cullInvisibleSegments es ss))
               (cullStyles (cullInvisibleSegments es ss)))
          = cullStyles (cullInvisibleSegments es ss)
        \<and> cullSegmentCount
            (cullInvisibleSegments (cullEndpoints (cullInvisibleSegments es ss))
               (cullStyles (cullInvisibleSegments es ss)))
          = cullSegmentCount (cullInvisibleSegments es ss))"
proof -
  define es1 where "es1 = cullEndpoints (cullInvisibleSegments es ss)"
  define ss1 where "ss1 = cullStyles (cullInvisibleSegments es ss)"
  define r2 where "r2 = cullInvisibleSegments es1 ss1"
  have len: "length ss1 = length es1"
    by (simp add: es1_def ss1_def cull_fields)
  have n1: "cullSegmentCount (cullInvisibleSegments es ss) = length es1"
    by (simp add: es1_def cull_fields)
  have z: "cullDiscardedTransparentCount r2 = 0" "cullDiscardedDegenerateCount r2 = 0"
    "cullDiscardedDuplicateCount r2 = 0"
    using second_run_counters [of es ss]
    by (simp_all add: r2_def es1_def ss1_def cull_fields(4-6))
  have part: "cullSegmentCount r2 + cullDiscardedContainedCount r2 = length es1"
    using cull_partition [of es1 ss1] z by (simp add: r2_def)
  have sub: "subseq (zip (cullEndpoints r2) (cullStyles r2)) (zip es1 ss1)"
    unfolding r2_def by (rule cull_zip_subseq [OF len])
  have same: "cullEndpoints r2 = es1 \<and> cullStyles r2 = ss1 \<and> cullSegmentCount r2 = length es1"
    if "cullDiscardedContainedCount r2 = 0"
  proof -
    from part that have "cullSegmentCount r2 = length es1" by simp
    with cull_nothing_discarded [OF len, of] show ?thesis by (simp add: r2_def)
  qed
  from z part sub same show ?thesis
    unfolding r2_def es1_def ss1_def n1 [unfolded es1_def] by blast
qed

lemma demo_run1:
  "cullInvisibleSegments demoEndpoints demoStyles
   = \<lparr>cullSegmentCount = 2, cullEndpoints = [(0, 0, 10, 0), (0, 9, 8, 9)],
      cullStyles = [(1 / 2, 0, 1, 0), (1 / 2, 0, 1, 0)],
      cullBounds = \<lparr>minX = 0, minY = 0, maxX = 10, maxY = 9\<rparr>,
      cullMaxHalfWidth = 1 / 2,
      cullDiscardedTransparentCount = 1, cullDiscardedDegenerateCount = 0,
      cullDiscardedDuplicateCount = 1, cullDiscardedContainedCount = 0\<rparr>"
  unfolding demoEndpoints_def demoStyles_def by (rule demo_cull)

lemma demo_run2:
  "cullInvisibleSegments [(0, 0, 10, 0), (0, 9, 8, 9)] [(1 / 2, 0, 1, 0), (1 / 2, 0, 1, 0)]
   = \<lparr>cullSegmentCount = 2, cullEndpoints = [(0, 0, 10, 0), (0, 9, 8, 9)],
      cullStyles = [(1 / 2, 0, 1, 0), (1 / 2, 0, 1, 0)],
      cullBounds = \<lparr>minX = 0, minY = 0, maxX = 10, maxY = 9\<rparr>,
      cullMaxHalfWidth = 1 / 2,
      cullDiscardedTransparentCount = 0, cullDiscardedDegenerateCount = 0,
      cullDiscardedDuplicateCount = 0, cullDiscardedContainedCount = 0\<rparr>"
  by (simp add: cull_eval_full)

theorem cull_second_run_witness:
  "cullDiscardedContainedCount
     (cullInvisibleSegments (cullEndpoints (cullInvisibleSegments demoEndpoints demoStyles))
        (cullStyles (cullInvisibleSegments demoEndpoints demoStyles))) = 0
   \<and> cullEndpoints
       (cullInvisibleSegments (cullEndpoints (cullInvisibleSegments demoEndpoints demoStyles))
          (cullStyles (cullInvisibleSegments demoEndpoints demoStyles)))
     = cullEndpoints (cullInvisibleSegments demoEndpoints demoStyles)
   \<and> cullStyles
       (cullInvisibleSegments (cullEndpoints (cullInvisibleSegments demoEndpoints demoStyles))
          (cullStyles (cullInvisibleSegments demoEndpoints demoStyles)))
     = cullStyles (cullInvisibleSegments demoEndpoints demoStyles)
   \<and> cullSegmentCount
       (cullInvisibleSegments (cullEndpoints (cullInvisibleSegments demoEndpoints demoStyles))
          (cullStyles (cullInvisibleSegments demoEndpoints demoStyles))) = 2
   \<and> cullDiscardedTransparentCount (cullInvisibleSegments demoEndpoints demoStyles) = 1
   \<and> cullDiscardedTransparentCount
       (cullInvisibleSegments (cullEndpoints (cullInvisibleSegments demoEndpoints demoStyles))
          (cullStyles (cullInvisibleSegments demoEndpoints demoStyles))) = 0"
proof -
  have c: "cullDiscardedContainedCount
     (cullInvisibleSegments (cullEndpoints (cullInvisibleSegments demoEndpoints demoStyles))
        (cullStyles (cullInvisibleSegments demoEndpoints demoStyles))) = 0"
    by (simp add: demo_run1 demo_run2)
  have n: "cullSegmentCount (cullInvisibleSegments demoEndpoints demoStyles) = 2"
    "cullDiscardedTransparentCount (cullInvisibleSegments demoEndpoints demoStyles) = 1"
    by (simp_all add: demo_run1)
  from cull_second_run [of demoEndpoints demoStyles] c n show ?thesis by simp
qed

text \<open>
  Claim C4 as stated fails.  On \<open>nearWidthEndpoints\<close> the first run sorts the bucket
  as given (each stroke ties with its neighbour), drops the middle stroke as contained
  in the first and keeps the third, which the first is too thin to cover.  On the two
  survivors the sort puts the thicker third stroke first, and it covers the first: the
  second run discards one more stroke.
\<close>

theorem cull_idempotence_counterexample:
  "cullEndpoints (cullInvisibleSegments nearWidthEndpoints nearWidthStyles)
     = [(0, 0, 10, 0), (1 / 50, 0, 501 / 50, 0)]
   \<and> cullStyles (cullInvisibleSegments nearWidthEndpoints nearWidthStyles)
     = [(1, 0, 1, 0), (20003 / 20000, 0, 1, 0)]
   \<and> cullEndpoints
       (cullInvisibleSegments
          (cullEndpoints (cullInvisibleSegments nearWidthEndpoints nearWidthStyles))
          (cullStyles (cullInvisibleSegments nearWidthEndpoints nearWidthStyles)))
     = [(1 / 50, 0, 501 / 50, 0)]
   \<and> cullDiscardedContainedCount
       (cullInvisibleSegments
          (cullEndpoints (cullInvisibleSegments nearWidthEndpoints nearWidthStyles))
          (cullStyles (cullInvisibleSegments nearWidthEndpoints nearWidthStyles))) = 1
   \<and> cullEndpoints
       (cullInvisibleSegments
          (cullEndpoints (cullInvisibleSegments nearWidthEndpoints nearWidthStyles))
          (cullStyles (cullInvisibleSegments nearWidthEndpoints nearWidthStyles)))
     \<noteq> cullEndpoints (cullInvisibleSegments nearWidthEndpoints nearWidthStyles)"
  by (simp add: near_width_run1 near_width_run2)

subsection \<open>Spatial grid\<close>

lemma foldl_concat_map:
  "foldl f s (concat (map g xs)) = foldl (\<lambda>s x. foldl f s (g x)) s xs"
  by (induction xs arbitrary: s) auto

lemma foldl_map_arg: "foldl f s (map g xs) = foldl (\<lambda>s x. f s (g x)) s xs"
  by (induction xs arbitrary: s) auto

lemma forCells_cells: "forCells gw rng body st = foldl body st (cellsInRange gw rng)"
  by (cases rng) (simp add: forCells_def cellsInRange_def foldl_concat_map foldl_map_arg)

lemma countSegments_writes:
  "countSegments scene
     = foldl countCell (replicate (sceneCellCount scene) 0, 0) (map snd (membershipWrites scene))"
  by (simp add: countSegments_def membershipWrites_def forCells_cells segmentCells_def
      sceneCellCount_def map_concat foldl_concat_map foldl_map_arg comp_def)

lemma fillSegments_writes:
  "fillSegments scene offs
     = foldl (\<lambda>st w. writeCell (fst w) st (snd w))
         (replicate (offs ! sceneCellCount scene) 0, take (sceneCellCount scene) offs)
         (membershipWrites scene)"
  by (simp add: fillSegments_def membershipWrites_def forCells_cells segmentCells_def
      sceneCellCount_def Let_def foldl_concat_map foldl_map_arg)

lemma clamp_side:
  "64 \<le> nat (clamp v MIN_GRID_SIDE MAX_GRID_SIDE)"
  "nat (clamp v MIN_GRID_SIDE MAX_GRID_SIDE) \<le> 1024"
  by (auto simp: clamp_def MIN_GRID_SIDE_def MAX_GRID_SIDE_def)

lemma grid_sides:
  "64 \<le> sceneGridWidth scene" "sceneGridWidth scene \<le> 1024"
  "64 \<le> sceneGridHeight scene" "sceneGridHeight scene \<le> 1024"
  by (simp_all add: sceneGridWidth_def sceneGridHeight_def chooseGridSize_def Let_def
      clamp_side)

lemma clampToCell_less: "0 < m \<Longrightarrow> clampToCell v m < m"
  by (auto simp: clampToCell_def)

lemma cellsInRange_less:
  assumes "c \<in> set (cellsInRange gw (c0, c1, r0, r1))" and "c1 < gw" and "r1 < gh"
  shows "c < gw * gh"
proof -
  from assms(1) obtain row col where c: "c = row * gw + col" and "row \<le> r1" and "col \<le> c1"
    by (auto simp: cellsInRange_def)
  with assms have "row < gh" "col < gw" by simp_all
  then have "row * gw + col < row * gw + gw" by simp
  also have "\<dots> = Suc row * gw" by simp
  also have "\<dots> \<le> gh * gw" using \<open>row < gh\<close> by (intro mult_le_mono1) simp
  finally show ?thesis by (simp add: c mult.commute)
qed

lemma segmentCells_less:
  "c \<in> set (segmentCells scene i) \<Longrightarrow> c < sceneCellCount scene"
proof -
  assume a: "c \<in> set (segmentCells scene i)"
  obtain c0 c1 r0 r1 where r: "segmentCellRange scene i = (c0, c1, r0, r1)"
    by (cases "segmentCellRange scene i") auto
  have gw: "0 < sceneGridWidth scene" and gh: "0 < sceneGridHeight scene"
    using grid_sides(1,3) [of scene] by simp_all
  from r have "c1 < sceneGridWidth scene" "r1 < sceneGridHeight scene"
    using clampToCell_less [OF gw] clampToCell_less [OF gh]
    by (auto simp: segmentCellRange_def Let_def)
  with a r show ?thesis
    unfolding segmentCells_def sceneCellCount_def by (auto intro: cellsInRange_less)
qed

lemma membershipWrites_cells:
  "w \<in> set (membershipWrites scene) \<Longrightarrow>
     fst w < segmentCount scene \<and> snd w \<in> set (segmentCells scene (fst w))
     \<and> snd w < sceneCellCount scene"
  by (auto simp: membershipWrites_def segmentCells_less)

lemma u32_id: "n < 2 ^ 32 \<Longrightarrow> u32 n = n"
  by (simp add: u32_def)


lemma sum_list_bump:
  fixes cs :: "nat list"
  assumes "b < length cs"
  shows "sum_list (cs[b := cs ! b + 1]) = sum_list cs + 1"
  using assms by (simp add: sum_list_update)

lemma nth_le_sum_list:
  fixes cs :: "nat list"
  shows "b < length cs \<Longrightarrow> cs ! b \<le> sum_list cs"
  by (simp add: member_le_sum_list)

lemma countCell_step:
  assumes b: "b < length cs" and small: "sum_list cs + 1 < 2 ^ 32"
    and le: "\<forall>v \<in> set cs. v \<le> mx" and mem: "mx \<in> insert 0 (set cs)"
  shows "countCell (cs, mx) b = (cs[b := cs ! b + 1], max mx (cs ! b + 1))"
    and "\<forall>v \<in> set (cs[b := cs ! b + 1]). v \<le> max mx (cs ! b + 1)"
    and "max mx (cs ! b + 1) \<in> insert 0 (set (cs[b := cs ! b + 1]))"
proof -
  have "cs ! b + 1 < 2 ^ 32"
    using nth_le_sum_list [OF b] small by simp
  then show "countCell (cs, mx) b = (cs[b := cs ! b + 1], max mx (cs ! b + 1))"
    by (auto simp: countCell_def Let_def u32_id max_def)
  show "\<forall>v \<in> set (cs[b := cs ! b + 1]). v \<le> max mx (cs ! b + 1)"
  proof
    fix v assume "v \<in> set (cs[b := cs ! b + 1])"
    then have "v = cs ! b + 1 \<or> v \<in> set cs"
      using set_update_subset_insert [of cs b "cs ! b + 1"] by auto
    with le show "v \<le> max mx (cs ! b + 1)" by auto
  qed
  show "max mx (cs ! b + 1) \<in> insert 0 (set (cs[b := cs ! b + 1]))"
  proof (cases "cs ! b + 1 > mx")
    case True
    then have "max mx (cs ! b + 1) = cs[b := cs ! b + 1] ! b"
      using b by (simp add: max_def)
    also have "\<dots> \<in> set (cs[b := cs ! b + 1])"
      using b by (intro nth_mem) simp
    finally show ?thesis by simp
  next
    case False
    then have m: "max mx (cs ! b + 1) = mx" by (simp add: max_def)
    show ?thesis
    proof (cases "mx = 0")
      case True
      with m show ?thesis by simp
    next
      case nz: False
      with mem obtain p where p: "p < length cs" "cs ! p = mx"
        by (auto simp: in_set_conv_nth)
      with False have "p \<noteq> b" by auto
      with p have "cs[b := cs ! b + 1] ! p = mx" by simp
      moreover have "cs[b := cs ! b + 1] ! p \<in> set (cs[b := cs ! b + 1])"
        using p by (intro nth_mem) simp
      ultimately show ?thesis using m by simp
    qed
  qed
qed

lemma countCell_foldl:
  assumes "\<forall>c \<in> set bs. c < length cs" and "sum_list cs + length bs < 2 ^ 32"
    and "\<forall>v \<in> set cs. v \<le> mx" and "mx \<in> insert 0 (set cs)"
  shows "countedFrom cs bs (foldl countCell (cs, mx) bs)"
  using assms
proof (induction bs arbitrary: cs mx)
  case Nil
  then show ?case by (simp add: countedFrom_def)
next
  case (Cons b bs)
  let ?cs1 = "cs[b := cs ! b + 1]"
  let ?mx1 = "max mx (cs ! b + 1)"
  from Cons.prems have b: "b < length cs" and small: "sum_list cs + 1 < 2 ^ 32" by simp_all
  note st = countCell_step [OF b small Cons.prems(3) Cons.prems(4)]
  have s1: "sum_list ?cs1 = sum_list cs + 1" by (rule sum_list_bump [OF b])
  have ih: "countedFrom ?cs1 bs (foldl countCell (?cs1, ?mx1) bs)"
  proof (rule Cons.IH)
    show "\<forall>c \<in> set bs. c < length ?cs1" using Cons.prems(1) by simp
    show "sum_list ?cs1 + length bs < 2 ^ 32" using Cons.prems(2) s1 by simp
    show "\<forall>v \<in> set ?cs1. v \<le> ?mx1" by (rule st(2))
    show "?mx1 \<in> insert 0 (set ?cs1)" by (rule st(3))
  qed
  have "foldl countCell (cs, mx) (b # bs) = foldl countCell (?cs1, ?mx1) bs"
    by (simp add: st(1))
  moreover have "countedFrom cs (b # bs) (foldl countCell (?cs1, ?mx1) bs)"
    using ih b s1 unfolding countedFrom_def
    by (auto simp: nth_list_update)
  ultimately show ?case by simp
qed

lemma countSegments_counted:
  assumes "totalMemberships scene < 2 ^ 32"
  shows "countedFrom (replicate (sceneCellCount scene) 0)
           (map snd (membershipWrites scene)) (countSegments scene)"
  unfolding countSegments_writes
proof (rule countCell_foldl)
  show "\<forall>c \<in> set (map snd (membershipWrites scene)).
          c < length (replicate (sceneCellCount scene) (0::nat))"
    using membershipWrites_cells [of _ scene] by auto
  show "sum_list (replicate (sceneCellCount scene) 0)
          + length (map snd (membershipWrites scene)) < 2 ^ 32"
    using assms by (simp add: totalMemberships_def sum_list_replicate)
  show "\<forall>v \<in> set (replicate (sceneCellCount scene) (0::nat)). v \<le> 0" by simp
  show "(0::nat) \<in> insert 0 (set (replicate (sceneCellCount scene) 0))" by simp
qed

lemma countSegments_length: "length (fst (countSegments scene)) = sceneCellCount scene"
proof -
  have "length (fst (foldl countCell st bs)) = length (fst st)" for st bs
    by (induction bs arbitrary: st) (auto simp: countCell_def Let_def split: prod.splits)
  then show ?thesis by (simp add: countSegments_writes)
qed

text \<open>Prefix sums.\<close>

lemma sum_list_take_le:
  fixes cs :: "nat list"
  shows "sum_list (take j cs) \<le> sum_list cs"
proof -
  have "sum_list cs = sum_list (take j cs) + sum_list (drop j cs)"
    by (metis append_take_drop_id sum_list_append)
  then show ?thesis by simp
qed

lemma buildOffsets_length: "length (buildOffsets cs m) = m + 1"
proof -
  have "length (foldl (\<lambda>offs i. offs[i + 1 := u32 (offs ! i + cs ! i)]) st xs) = length st"
    for st xs by (induction xs arbitrary: st) auto
  then show ?thesis by (simp add: buildOffsets_def)
qed


lemma buildOffsets_prefix:
  assumes len: "length cs = m" and small: "sum_list cs < 2 ^ 32" and j: "j \<le> m"
  shows "buildOffsets cs m ! j = sum_list (take j cs)"
proof -
  define P where "P = (\<lambda>k (offs :: nat list). length offs = m + 1
                          \<and> (\<forall>j \<le> k. offs ! j = sum_list (take j cs)))"
  have "P m (buildOffsets cs m)"
    unfolding buildOffsets_def
  proof (rule foldl_upt_invariant [where P = P])
    show "P 0 (replicate (m + 1) 0)" by (simp add: P_def)
  next
    fix k offs
    assume k: "k < m" and p: "P k offs"
    have t: "sum_list (take (Suc k) cs) = sum_list (take k cs) + cs ! k"
      using k len by (simp add: take_Suc_conv_app_nth)
    have "sum_list (take (Suc k) cs) < 2 ^ 32"
      using sum_list_take_le [of "Suc k" cs] small by simp
    with t p have "u32 (offs ! k + cs ! k) = sum_list (take (Suc k) cs)"
      by (simp add: P_def u32_id)
    with p k show "P (Suc k) (offs[k + 1 := u32 (offs ! k + cs ! k)])"
      by (auto simp: P_def nth_list_update le_Suc_eq)
  qed
  with j show ?thesis by (simp add: P_def)
qed

lemma buildOffsets_step:
  assumes "length cs = m" and "sum_list cs < 2 ^ 32" and "i < m"
  shows "buildOffsets cs m ! (i + 1) = buildOffsets cs m ! i + cs ! i"
  using assms buildOffsets_prefix [of cs m "Suc i"] buildOffsets_prefix [of cs m i]
  by (simp add: take_Suc_conv_app_nth)

lemma sum_list_take_mono:
  fixes cs :: "nat list"
  assumes "j \<le> j'"
  shows "sum_list (take j cs) \<le> sum_list (take j' cs)"
proof -
  from assms have "take j cs = take j (take j' cs)" by (simp add: min_def)
  then show ?thesis using sum_list_take_le [of j "take j' cs"] by simp
qed

lemma fill_step:
  fixes offs cs :: "nat list"
  assumes len_cs: "length cs = m"
    and pre: "\<forall>j \<le> m. offs ! j = sum_list (take j cs)"
    and small: "sum_list cs < 2 ^ 32"
    and c: "c < m" and v: "v < 2 ^ 32"
    and room: "count_list (map snd prior) c < cs ! c"
    and bound: "\<forall>c' < m. count_list (map snd prior) c' \<le> cs ! c'"
    and okp: "\<forall>w \<in> set prior. snd w < m"
    and inv: "fillInv offs m prior st"
  shows "fillInv offs m (prior @ [(v, c)]) (writeCell v st c)"
proof -
  obtain idx cur where st: "st = (idx, cur)" by (cases st)
  let ?n = "\<lambda>c'. count_list (map snd prior) c'"
  let ?p = "offs ! c + ?n c"
  from inv have li: "length idx = offs ! m" and lc: "length cur = m"
    and cu: "\<forall>c' < m. cur ! c' = offs ! c' + ?n c'"
    and fd: "\<forall>w \<in> set prior. \<exists>k < ?n (snd w). idx ! (offs ! snd w + k) = fst w"
    by (simp_all add: fillInv_def st)
  have nxt: "offs ! (Suc c') = offs ! c' + cs ! c'" if "c' < m" for c'
    using that pre len_cs by (simp add: take_Suc_conv_app_nth)
  have mono: "offs ! j \<le> offs ! j'" if "j \<le> j'" "j' \<le> m" for j j'
    using that pre sum_list_take_mono [of j j' cs] by simp
  have total: "offs ! m \<le> sum_list cs"
    using pre sum_list_take_le [of m cs] by simp
  have p_lt: "?p < offs ! Suc c" using room nxt [OF c] by simp
  have p_len: "?p < length idx"
    using p_lt mono [of "Suc c" m] c li by simp
  have wc: "writeCell v st c = (idx[?p := v], cur[c := ?p + 1])"
    using cu c v p_len li total small
    by (simp add: writeCell_def st Let_def u32_id)
  have cnt: "count_list (map snd (prior @ [(v, c)])) c' = ?n c' + (if c' = c then 1 else 0)"
    for c' by simp
  have a: "\<forall>c' < m. (cur[c := ?p + 1]) ! c'
             = offs ! c' + count_list (map snd (prior @ [(v, c)])) c'"
    using cu c lc by (auto simp: nth_list_update)
  have b: "\<exists>k < count_list (map snd (prior @ [(v, c)])) (snd w).
             (idx[?p := v]) ! (offs ! snd w + k) = fst w"
    if w: "w \<in> set (prior @ [(v, c)])" for w
  proof (cases "w \<in> set prior")
    case True
    with fd obtain k where k: "k < ?n (snd w)" "idx ! (offs ! snd w + k) = fst w" by blast
    have sw: "snd w < m" using okp True by simp
    have "offs ! snd w + k \<noteq> ?p"
    proof (cases "snd w = c")
      case True
      with k(1) show ?thesis by simp
    next
      case False
      show ?thesis
      proof (cases "snd w < c")
        case True
        have "offs ! snd w + k < offs ! snd w + cs ! snd w"
          using k(1) bound sw by (meson add_less_cancel_left less_le_trans)
        also have "\<dots> = offs ! Suc (snd w)" using nxt [OF sw] by simp
        also have "\<dots> \<le> offs ! c" using True c by (intro mono) simp_all
        finally show ?thesis by simp
      next
        case nl: False
        with False have "Suc c \<le> snd w" by simp
        then have "offs ! Suc c \<le> offs ! snd w" using sw by (intro mono) simp_all
        with p_lt show ?thesis by simp
      qed
    qed
    then have "(idx[?p := v]) ! (offs ! snd w + k) = fst w" using k(2) by simp
    moreover have "k < count_list (map snd (prior @ [(v, c)])) (snd w)"
      using k(1) by (simp add: cnt)
    ultimately show ?thesis by blast
  next
    case False
    with w have weq: "w = (v, c)" by simp
    have "(idx[?p := v]) ! (offs ! c + ?n c) = v" using p_len by simp
    moreover have "?n c < count_list (map snd (prior @ [(v, c)])) c" by (simp add: cnt)
    ultimately show ?thesis unfolding weq by auto
  qed
  show ?thesis
    unfolding wc fillInv_def using li lc a b by simp
qed

lemma fill_foldl:
  fixes offs cs :: "nat list"
  assumes len_cs: "length cs = m"
    and pre: "\<forall>j \<le> m. offs ! j = sum_list (take j cs)"
    and small: "sum_list cs < 2 ^ 32"
    and hist: "\<forall>c < m. cs ! c = count_list (map snd (prior @ rest)) c"
    and ok: "\<forall>w \<in> set rest. snd w < m \<and> fst w < 2 ^ 32"
    and okp: "\<forall>w \<in> set prior. snd w < m"
    and inv: "fillInv offs m prior st"
  shows "fillInv offs m (prior @ rest) (foldl (\<lambda>st w. writeCell (fst w) st (snd w)) st rest)"
  using hist ok okp inv
proof (induction rest arbitrary: prior st)
  case Nil
  then show ?case by simp
next
  case (Cons w rest)
  obtain v c where w: "w = (v, c)" by (cases w)
  from Cons.prems(2) have c: "c < m" and v: "v < 2 ^ 32" by (simp_all add: w)
  have room: "count_list (map snd prior) c < cs ! c"
    using Cons.prems(1) c by (simp add: w)
  have bound: "\<forall>c' < m. count_list (map snd prior) c' \<le> cs ! c'"
    using Cons.prems(1) by simp
  have step: "fillInv offs m (prior @ [(v, c)]) (writeCell v st c)"
    by (rule fill_step [OF len_cs pre small c v room bound Cons.prems(3) Cons.prems(4)])
  have "fillInv offs m ((prior @ [(v, c)]) @ rest)
          (foldl (\<lambda>st w. writeCell (fst w) st (snd w)) (writeCell v st c) rest)"
  proof (rule Cons.IH [OF _ _ _ step])
    show "\<forall>c' < m. cs ! c' = count_list (map snd ((prior @ [(v, c)]) @ rest)) c'"
      using Cons.prems(1) by (simp add: w)
    show "\<forall>w \<in> set rest. snd w < m \<and> fst w < 2 ^ 32"
      using Cons.prems(2) by simp
    show "\<forall>w \<in> set (prior @ [(v, c)]). snd w < m"
      using Cons.prems(3) c by simp
  qed
  then show ?case by (simp add: w)
qed

lemma grid_fields:
  "gridWidth (buildSpatialGrid scene) = sceneGridWidth scene"
  "gridHeight (buildSpatialGrid scene) = sceneGridHeight scene"
  "gridMinX (buildSpatialGrid scene) = minX (bounds scene)"
  "gridMinY (buildSpatialGrid scene) = minY (bounds scene)"
  "cellWidth (buildSpatialGrid scene) = sceneCellWidth scene"
  "cellHeight (buildSpatialGrid scene) = sceneCellHeight scene"
  "counts (buildSpatialGrid scene) = fst (countSegments scene)"
  "maxCellPopulation (buildSpatialGrid scene) = snd (countSegments scene)"
  "offsets (buildSpatialGrid scene)
     = buildOffsets (fst (countSegments scene)) (sceneCellCount scene)"
  "indices (buildSpatialGrid scene)
     = fst (fillSegments scene
              (buildOffsets (fst (countSegments scene)) (sceneCellCount scene)))"
  by (simp_all add: buildSpatialGrid_def Let_def sceneCellCount_def)






lemma grid_counts:
  assumes "totalMemberships scene < 2 ^ 32"
  shows "length (counts (buildSpatialGrid scene)) = sceneCellCount scene"
    and "\<forall>c < sceneCellCount scene. counts (buildSpatialGrid scene) ! c
           = count_list (map snd (membershipWrites scene)) c"
    and "sum_list (counts (buildSpatialGrid scene)) = totalMemberships scene"
    and "\<forall>v \<in> set (counts (buildSpatialGrid scene)).
           v \<le> maxCellPopulation (buildSpatialGrid scene)"
    and "maxCellPopulation (buildSpatialGrid scene)
           \<in> insert 0 (set (counts (buildSpatialGrid scene)))"
  using countSegments_counted [of scene] assms
  by (simp_all add: countedFrom_def grid_fields totalMemberships_def
      sum_list_replicate)


lemma grid_offsets_prefix:
  assumes "totalMemberships scene < 2 ^ 32" and "j \<le> sceneCellCount scene"
  shows "offsets (buildSpatialGrid scene) ! j
           = sum_list (take j (counts (buildSpatialGrid scene)))"
  unfolding grid_fields(9) grid_fields(7) [symmetric]
  using grid_counts(1,3) [OF assms(1)] assms
  by (intro buildOffsets_prefix) simp_all


lemma grid_membership:
  assumes fits: "gridFits scene" and i: "i < segmentCount scene"
    and c: "c \<in> set (segmentCells scene i)"
  shows "\<exists>k < counts (buildSpatialGrid scene) ! c.
           indices (buildSpatialGrid scene) ! (offsets (buildSpatialGrid scene) ! c + k) = i"
proof -
  let ?g = "buildSpatialGrid scene"
  let ?m = "sceneCellCount scene"
  let ?W = "membershipWrites scene"
  from fits have tot: "totalMemberships scene < 2 ^ 32" by (simp add: gridFits_def)
  have inv0: "fillInv (offsets ?g) ?m [] (replicate (offsets ?g ! ?m) 0, take ?m (offsets ?g))"
    using grid_offsets_prefix [OF tot] buildOffsets_length [of "fst (countSegments scene)" ?m]
    by (simp add: fillInv_def grid_fields(9))
  have "fillInv (offsets ?g) ?m ([] @ ?W)
          (foldl (\<lambda>st w. writeCell (fst w) st (snd w))
             (replicate (offsets ?g ! ?m) 0, take ?m (offsets ?g)) ?W)"
  proof (rule fill_foldl [where cs = "counts ?g"])
    show "length (counts ?g) = ?m" by (rule grid_counts(1) [OF tot])
    show "\<forall>j \<le> ?m. offsets ?g ! j = sum_list (take j (counts ?g))"
      using grid_offsets_prefix [OF tot] by blast
    show "sum_list (counts ?g) < 2 ^ 32"
      using grid_counts(3) [OF tot] fits by (simp add: gridFits_def)
    show "\<forall>c < ?m. counts ?g ! c = count_list (map snd ([] @ ?W)) c"
      using grid_counts(2) [OF tot] by simp
    show "\<forall>w \<in> set ?W. snd w < ?m \<and> fst w < 2 ^ 32"
      using membershipWrites_cells [of _ scene] fits
      by (auto simp: gridFits_def intro: less_trans)
    show "\<forall>w \<in> set []. snd w < ?m" by simp
    show "fillInv (offsets ?g) ?m [] (replicate (offsets ?g ! ?m) 0, take ?m (offsets ?g))"
      by (rule inv0)
  qed
  then have f: "fillInv (offsets ?g) ?m ?W (fillSegments scene (offsets ?g))"
    by (simp add: fillSegments_writes)
  have w: "(i, c) \<in> set ?W"
    using i c by (auto simp: membershipWrites_def)
  have cm: "c < ?m" using c by (rule segmentCells_less)
  from f w obtain k where "k < count_list (map snd ?W) c"
    "fst (fillSegments scene (offsets ?g)) ! (offsets ?g ! c + k) = i"
    unfolding fillInv_def by force
  moreover have "indices ?g = fst (fillSegments scene (offsets ?g))"
    by (simp add: grid_fields)
  ultimately show ?thesis
    using grid_counts(2) [OF tot] cm by auto
qed
















lemma strip_grid: "sceneGridWidth stripScene = 300" "sceneGridHeight stripScene = 100"
proof -
  have s: "sqrt 90000 = 300" by (rule real_sqrt_unique) simp_all
  have r: "round (1 / 8 :: real) = 0" by (simp add: round_def)
  show "sceneGridWidth stripScene = 300" "sceneGridHeight stripScene = 100"
    by (simp_all add: sceneGridWidth_def sceneGridHeight_def chooseGridSize_def Let_def
        stripScene_def sceneWidth_def sceneHeight_def clamp_def s r
        MIN_TARGET_CELLS_def MAX_TARGET_CELLS_def MIN_GRID_SIDE_def MAX_GRID_SIDE_def)
qed





subsection \<open>The fallback to all segments\<close>

lemma scanVisible_flag: "usingAllSegments (scanVisible r grid cellRange rejected) = usingAllSegments r"
  by (simp add: scanVisible_def split: prod.splits)

lemma bumpMarkToken_flag: "usingAllSegments (bumpMarkToken r) = usingAllSegments r"
  by (simp add: bumpMarkToken_def)

lemma strip_grid_fields:
  "gridWidth (buildSpatialGrid stripScene) = 300"
  "gridHeight (buildSpatialGrid stripScene) = 100"
  "gridMinX (buildSpatialGrid stripScene) = 0"
  "gridMinY (buildSpatialGrid stripScene) = 0"
  "cellWidth (buildSpatialGrid stripScene) = 1 / 100"
  "cellHeight (buildSpatialGrid stripScene) = 1 / 100"
proof -
  have b: "bounds stripScene = \<lparr>minX = 0, minY = 0, maxX = 3, maxY = 1\<rparr>"
    by (simp add: stripScene_def)
  show "gridWidth (buildSpatialGrid stripScene) = 300"
    "gridHeight (buildSpatialGrid stripScene) = 100"
    "gridMinX (buildSpatialGrid stripScene) = 0"
    "gridMinY (buildSpatialGrid stripScene) = 0"
    "cellWidth (buildSpatialGrid stripScene) = 1 / 100"
    "cellHeight (buildSpatialGrid stripScene) = 1 / 100"
    by (simp_all add: grid_fields strip_grid sceneCellWidth_def sceneCellHeight_def
        sceneWidth_def sceneHeight_def b)
qed

lemma lower_view_range:
  "viewCellRange (buildSpatialGrid stripScene)
     (viewBounds 16 (maxHalfWidth stripScene) (3 / 2) (- (141 / 200)) 64 16)
   = (0, 299, 0, 79)"
proof -
  have "maxHalfWidth stripScene = 1 / 2" by (simp add: stripScene_def)
  then show ?thesis
    by (simp add: viewCellRange_def viewBounds_def Let_def strip_grid_fields clampToGrid_def)
qed

lemma lowerViewV1_fields:
  "rScene lowerViewV1 = Some stripScene"
  "rGrid lowerViewV1 = Some (buildSpatialGrid stripScene)"
  "zoom lowerViewV1 = 16" "cameraCenterX lowerViewV1 = 3 / 2"
  "cameraCenterY lowerViewV1 = - (141 / 200)"
  "canvasWidth lowerViewV1 = 64" "canvasHeight lowerViewV1 = 16"
  by (simp_all add: lowerViewV1_def setSceneV1_def newRenderer_def Let_def)

lemma lowerView_fields:
  "rScene lowerView = Some stripScene"
  "rGrid lowerView = Some (buildSpatialGrid stripScene)"
  "zoom lowerView = 16" "lastInteractionTime lowerView = None"
  by (simp_all add: lowerView_def setScene_def setSceneV1_def buildSegmentBounds_def
      newRenderer_def Let_def)

text \<open>
  Claim C8 (as amended).  With a scene and its grid in place, the later revision of
  \<open>updateVisibleSet\<close> takes the "all segments" path exactly when no interaction is
  active and \<open>(c1 - c0 + 1) * (r1 - r0 + 1) \<ge> 0.92 * gridWidth * gridHeight\<close> for the
  clamped cell range of the view; the earlier revision takes it exactly when the product
  is at least \<open>0.7 * gridWidth * gridHeight\<close>, whatever the interaction state.  On that
  path only the flag and the count are stored; otherwise the token is advanced and the
  per-cell scan is performed.
\<close>

theorem all_segments_fast_path:
  assumes "rScene r = Some scene" and "rGrid r = Some grid"
    and "viewCellRange grid
           (viewBounds (zoom r) (maxHalfWidth scene) viewCenterX viewCenterY
              viewportWidthPx viewportHeightPx) = (c0, c1, r0, r1)"
    and "viewCellRange grid
           (viewBounds (zoom r) (maxHalfWidth scene) (cameraCenterX r) (cameraCenterY r)
              (real (canvasWidth r)) (real (canvasHeight r))) = (d0, d1, s0, s1)"
  shows "(usingAllSegments
            (updateVisibleSet r viewCenterX viewCenterY viewportWidthPx viewportHeightPx now)
          \<longleftrightarrow> \<not> isInteractionActive r now
              \<and> real_of_int ((int c1 - int c0 + 1) * (int r1 - int r0 + 1))
                  \<ge> 92 / 100 * real (gridWidth grid * gridHeight grid))
     \<and> updateVisibleSet r viewCenterX viewCenterY viewportWidthPx viewportHeightPx now
         = (if \<not> isInteractionActive r now
               \<and> real_of_int ((int c1 - int c0 + 1) * (int r1 - int r0 + 1))
                   \<ge> 92 / 100 * real (gridWidth grid * gridHeight grid)
            then r\<lparr>usingAllSegments := True, visibleSegmentCount := rSegmentCount r\<rparr>
            else scanVisible (bumpMarkToken (r\<lparr>usingAllSegments := False\<rparr>)) grid
                   (c0, c1, r0, r1)
                   (boxRejected r (viewBounds (zoom r) (maxHalfWidth scene) viewCenterX
                      viewCenterY viewportWidthPx viewportHeightPx)))
     \<and> (usingAllSegments (updateVisibleSetV1 r)
          \<longleftrightarrow> real_of_int ((int d1 - int d0 + 1) * (int s1 - int s0 + 1))
                  \<ge> 7 / 10 * real (gridWidth grid * gridHeight grid))
     \<and> updateVisibleSetV1 r
         = (if real_of_int ((int d1 - int d0 + 1) * (int s1 - int s0 + 1))
                 \<ge> 7 / 10 * real (gridWidth grid * gridHeight grid)
            then r\<lparr>usingAllSegments := True, visibleSegmentCount := rSegmentCount r\<rparr>
            else scanVisible (bumpMarkToken (r\<lparr>usingAllSegments := False\<rparr>)) grid
                   (d0, d1, s0, s1) (\<lambda>segmentIndex. False))"
proof -
  have a: "updateVisibleSet r viewCenterX viewCenterY viewportWidthPx viewportHeightPx now
         = (if \<not> isInteractionActive r now
               \<and> real_of_int ((int c1 - int c0 + 1) * (int r1 - int r0 + 1))
                   \<ge> 92 / 100 * real (gridWidth grid * gridHeight grid)
            then r\<lparr>usingAllSegments := True, visibleSegmentCount := rSegmentCount r\<rparr>
            else scanVisible (bumpMarkToken (r\<lparr>usingAllSegments := False\<rparr>)) grid
                   (c0, c1, r0, r1)
                   (boxRejected r (viewBounds (zoom r) (maxHalfWidth scene) viewCenterX
                      viewCenterY viewportWidthPx viewportHeightPx)))"
    using assms(1,2,3)
    by (simp add: updateVisibleSet_def Let_def visibleCellCount_def
        FULL_VIEW_FALLBACK_THRESHOLD_def mult.commute)
  have b: "updateVisibleSetV1 r
         = (if real_of_int ((int d1 - int d0 + 1) * (int s1 - int s0 + 1))
                 \<ge> 7 / 10 * real (gridWidth grid * gridHeight grid)
            then r\<lparr>usingAllSegments := True, visibleSegmentCount := rSegmentCount r\<rparr>
            else scanVisible (bumpMarkToken (r\<lparr>usingAllSegments := False\<rparr>)) grid
                   (d0, d1, s0, s1) (\<lambda>segmentIndex. False))"
    using assms(1,2,4)
    by (simp add: updateVisibleSetV1_def Let_def visibleCellCount_def mult.commute)
  have c: "usingAllSegments
            (updateVisibleSet r viewCenterX viewCenterY viewportWidthPx viewportHeightPx now)
          \<longleftrightarrow> \<not> isInteractionActive r now
              \<and> real_of_int ((int c1 - int c0 + 1) * (int r1 - int r0 + 1))
                  \<ge> 92 / 100 * real (gridWidth grid * gridHeight grid)"
    unfolding a by (simp add: scanVisible_flag bumpMarkToken_flag)
  have d: "usingAllSegments (updateVisibleSetV1 r)
          \<longleftrightarrow> real_of_int ((int d1 - int d0 + 1) * (int s1 - int s0 + 1))
                  \<ge> 7 / 10 * real (gridWidth grid * gridHeight grid)"
    unfolding b by (simp add: scanVisible_flag bumpMarkToken_flag)
  from a b c d show ?thesis by blast
qed

theorem all_segments_fast_path_witness:
  "rScene lowerView = Some stripScene
   \<and> rGrid lowerView = Some (buildSpatialGrid stripScene)
   \<and> viewCellRange (buildSpatialGrid stripScene)
        (viewBounds (zoom lowerView) (maxHalfWidth stripScene) (3 / 2) (- (141 / 200)) 64 16)
      = (0, 299, 0, 79)
   \<and> \<not> usingAllSegments (updateVisibleSet lowerView (3 / 2) (- (141 / 200)) 64 16 0)"
proof -
  have v: "viewCellRange (buildSpatialGrid stripScene)
        (viewBounds (zoom lowerView) (maxHalfWidth stripScene) (3 / 2) (- (141 / 200)) 64 16)
      = (0, 299, 0, 79)"
    by (simp add: lowerView_fields lower_view_range)
  obtain d0 d1 s0 s1 where w: "viewCellRange (buildSpatialGrid stripScene)
        (viewBounds (zoom lowerView) (maxHalfWidth stripScene) (cameraCenterX lowerView)
           (cameraCenterY lowerView) (real (canvasWidth lowerView))
           (real (canvasHeight lowerView))) = (d0, d1, s0, s1)"
    by (metis prod_cases4)
  from all_segments_fast_path [OF lowerView_fields(1) lowerView_fields(2) v w, of 0]
  have "usingAllSegments (updateVisibleSet lowerView (3 / 2) (- (141 / 200)) 64 16 0)
          \<longleftrightarrow> \<not> isInteractionActive lowerView 0
              \<and> real_of_int ((int 299 - int 0 + 1) * (int 79 - int 0 + 1))
                  \<ge> 92 / 100 * real (gridWidth (buildSpatialGrid stripScene)
                                        * gridHeight (buildSpatialGrid stripScene))"
    by blast
  then have "\<not> usingAllSegments (updateVisibleSet lowerView (3 / 2) (- (141 / 200)) 64 16 0)"
    by (simp add: strip_grid_fields)
  with v show ?thesis by (simp add: lowerView_fields)
qed

text \<open>
  Claim C8 as stated fails on the earlier revision: the view of \<open>lowerViewV1\<close> covers
  24000 of the 30000 cells, fewer than 0.92 of them, and the "all segments" path is
  taken.
\<close>

theorem all_segments_threshold_counterexample:
  "rScene lowerViewV1 = Some stripScene
   \<and> rGrid lowerViewV1 = Some (buildSpatialGrid stripScene)
   \<and> gridWidth (buildSpatialGrid stripScene) * gridHeight (buildSpatialGrid stripScene) = 30000
   \<and> viewCellRange (buildSpatialGrid stripScene)
        (viewBounds (zoom lowerViewV1) (maxHalfWidth stripScene) (cameraCenterX lowerViewV1)
           (cameraCenterY lowerViewV1) (real (canvasWidth lowerViewV1))
           (real (canvasHeight lowerViewV1))) = (0, 299, 0, 79)
   \<and> real_of_int ((int 299 - int 0 + 1) * (int 79 - int 0 + 1)) < 92 / 100 * real 30000
   \<and> usingAllSegments (updateVisibleSetV1 lowerViewV1)"
proof -
  have v: "viewCellRange (buildSpatialGrid stripScene)
        (viewBounds (zoom lowerViewV1) (maxHalfWidth stripScene) (cameraCenterX lowerViewV1)
           (cameraCenterY lowerViewV1) (real (canvasWidth lowerViewV1))
           (real (canvasHeight lowerViewV1))) = (0, 299, 0, 79)"
    by (simp add: lowerViewV1_fields lower_view_range)
  have "usingAllSegments (updateVisibleSetV1 lowerViewV1)"
    by (simp add: updateVisibleSetV1_def lowerViewV1_fields(1,2) Let_def v
        visibleCellCount_def strip_grid_fields)
  with v show ?thesis by (simp add: lowerViewV1_fields strip_grid_fields)
qed

end
